theory Spec2Isabelle
  imports Complex_Main
begin

section \<open>Values and exceptions\<close>

text \<open>
  The script \<^verbatim>\<open>collect_data.py\<close> works on what the JSON decoder hands it: listings
  from the marketplace API and records read back from the dataset file. Such a value is
  \<^verbatim>\<open>None\<close>, a \<^verbatim>\<open>bool\<close>, an \<^verbatim>\<open>int\<close> (unbounded), a \<^verbatim>\<open>float\<close>, a \<^verbatim>\<open>str\<close>, a \<^verbatim>\<open>list\<close> or a
  \<^verbatim>\<open>dict\<close> with string keys. A float is an IEEE 754 double and is represented by the
  exact rational value of that double (the section on floats below has the rounding);
  NaN and the infinities are outside this model. A dict is an association list in
  insertion order whose keys are pairwise distinct, looked up with \<^const>\<open>map_of\<close>.
\<close>

datatype json =
    JNull
  | JBool bool
  | JInt int
  | JFloat rat
  | JStr string
  | JList "json list"
  | JObj "(string \<times> json) list"

text \<open>The exceptions the script raises itself or receives from the built-ins it calls.\<close>

datatype error =
    ValueError string
  | Exception string
  | AttributeError
  | TypeError
  | KeyError
  | JSONDecodeError
  | ZeroDivisionError
  | OverflowError

text \<open>\<^verbatim>\<open>str(n)\<close> for an integer, used by the f-string of the API error.\<close>

fun str_nat :: "nat \<Rightarrow> string" where
  "str_nat n =
     (if n < 10 then [''0123456789'' ! n]
      else str_nat (n div 10) @ [''0123456789'' ! (n mod 10)])"

declare str_nat.simps [simp del]

definition str_int :: "int \<Rightarrow> string" where
  "str_int i = (if i < 0 then CHR ''-'' # str_nat (nat (- i)) else str_nat (nat i))"

text \<open>Truthiness, as tested by \<^verbatim>\<open>if x:\<close> and \<^verbatim>\<open>if not x:\<close>.\<close>

fun truthy :: "json \<Rightarrow> bool" where
  "truthy JNull = False"
| "truthy (JBool b) = b"
| "truthy (JInt i) = (i \<noteq> 0)"
| "truthy (JFloat q) = (q \<noteq> 0)"
| "truthy (JStr s) = (s \<noteq> [])"
| "truthy (JList xs) = (xs \<noteq> [])"
| "truthy (JObj kvs) = (kvs \<noteq> [])"

text \<open>\<^verbatim>\<open>d.get(key, default)\<close> on the items of a dict.\<close>

definition dict_get :: "(string \<times> json) list \<Rightarrow> string \<Rightarrow> json \<Rightarrow> json" where
  "dict_get kvs k d = (case map_of kvs k of Some v \<Rightarrow> v | None \<Rightarrow> d)"

text \<open>
  \<^verbatim>\<open>x.get(key, default)\<close> on any value: only a dict has the method, every other value
  raises \<^verbatim>\<open>AttributeError\<close>.
\<close>

fun py_get :: "json \<Rightarrow> string \<Rightarrow> json \<Rightarrow> error + json" where
  "py_get (JObj kvs) k d = Inr (dict_get kvs k d)"
| "py_get _ k d = Inl AttributeError"

text \<open>
  \<^verbatim>\<open>x[key]\<close> with a string key: a missing key of a dict raises \<^verbatim>\<open>KeyError\<close>, and a
  value that is not a dict raises \<^verbatim>\<open>TypeError\<close> (a list or a string wants an integer
  index, the others are not subscriptable).
\<close>

fun py_getitem :: "json \<Rightarrow> string \<Rightarrow> error + json" where
  "py_getitem (JObj kvs) k = (case map_of kvs k of Some v \<Rightarrow> Inr v | None \<Rightarrow> Inl KeyError)"
| "py_getitem _ k = Inl TypeError"

section \<open>Floats\<close>

text \<open>Rounding to the nearest integer, a tie going to the even neighbour.\<close>

definition round_half_even :: "rat \<Rightarrow> int" where
  "round_half_even x =
     (let f = \<lfloor>x\<rfloor>; d = x - of_int f in
      if d < 1 / 2 then f
      else if d > 1 / 2 then f + 1
      else if even f then f else f + 1)"

text \<open>
  The binary exponent of a positive number: the \<open>e\<close> with \<open>2 ^ e \<le> x < 2 ^ (e + 1)\<close>,
  found by halving a number from 1 upwards and by doubling a number below 1.
\<close>

function log2_down :: "rat \<Rightarrow> int" where
  "log2_down x = (if x < 2 then 0 else log2_down (x / 2) + 1)"
  by pat_completeness auto
termination
proof (relation "measure (\<lambda>x. nat \<lfloor>x\<rfloor>)")
  show "wf (measure (\<lambda>x :: rat. nat \<lfloor>x\<rfloor>))"
    by simp
next
  fix x :: rat
  assume "\<not> x < 2"
  then have "x / 2 \<le> x - 1"
    by simp
  then have "\<lfloor>x / 2\<rfloor> \<le> \<lfloor>x - 1\<rfloor>"
    by (rule floor_mono)
  moreover have "0 < \<lfloor>x\<rfloor>"
    using \<open>\<not> x < 2\<close> by simp
  ultimately show "(x / 2, x) \<in> measure (\<lambda>x. nat \<lfloor>x\<rfloor>)"
    by simp
qed

function log2_up :: "rat \<Rightarrow> int" where
  "log2_up x = (if x \<le> 0 \<or> 1 \<le> x then 0 else log2_up (x * 2) - 1)"
  by pat_completeness auto
termination
proof (relation "measure (\<lambda>x. nat \<lfloor>1 / x\<rfloor>)")
  show "wf (measure (\<lambda>x :: rat. nat \<lfloor>1 / x\<rfloor>))"
    by simp
next
  fix x :: rat
  assume a: "\<not> (x \<le> 0 \<or> 1 \<le> x)"
  define y where "y = 1 / x"
  have y: "1 < y"
    using a by (simp add: y_def)
  have h: "1 / (x * 2) = y / 2"
    by (simp add: y_def)
  have "\<lfloor>y / 2\<rfloor> < \<lfloor>y\<rfloor>"
  proof (cases "y < 2")
    case True
    then have "\<lfloor>y / 2\<rfloor> = 0"
      using y by (simp add: floor_eq_iff)
    moreover have "1 \<le> \<lfloor>y\<rfloor>"
      using y by simp
    ultimately show ?thesis
      by simp
  next
    case False
    then have "y / 2 \<le> y - 1"
      by simp
    then have "\<lfloor>y / 2\<rfloor> \<le> \<lfloor>y - 1\<rfloor>"
      by (rule floor_mono)
    then show ?thesis
      by simp
  qed
  moreover have "0 < \<lfloor>y\<rfloor>"
    using y by simp
  ultimately show "(x * 2, x) \<in> measure (\<lambda>x. nat \<lfloor>1 / x\<rfloor>)"
    unfolding h [symmetric] y_def by simp
qed

declare log2_down.simps [simp del] log2_up.simps [simp del]

definition floor_log2 :: "rat \<Rightarrow> int" where
  "floor_log2 x = (if 1 \<le> x then log2_down x else log2_up x)"

definition pow2 :: "int \<Rightarrow> rat" where
  "pow2 e = (if 0 \<le> e then 2 ^ nat e else 1 / 2 ^ nat (- e))"

text \<open>
  The double nearest to a number: 53 significant bits, a tie going to the even
  mantissa, and below \<open>2 ^ - 1022\<close> the fixed spacing \<open>2 ^ - 1074\<close> of the subnormal
  range. A number beyond the largest double would become an infinity; \<open>double_of\<close>
  does not say so, the operations below check the range where Python raises.
\<close>

definition double_of :: "rat \<Rightarrow> rat" where
  "double_of x =
     (if x = 0 then 0
      else
        let e = max (floor_log2 \<bar>x\<bar>) (- 1022); ulp = pow2 (e - 52)
        in of_int (round_half_even (x / ulp)) * ulp)"

text \<open>A number of magnitude \<open>2 ^ 1024\<close> or more is beyond the double range.\<close>

definition beyond_double :: "rat \<Rightarrow> bool" where
  "beyond_double x = (x \<noteq> 0 \<and> 1024 \<le> floor_log2 \<bar>x\<bar>)"

text \<open>
  \<^verbatim>\<open>a / b\<close> on two \<^verbatim>\<open>int\<close>s: true division. It raises on a zero divisor, returns the
  double nearest to the exact quotient, and raises \<^verbatim>\<open>OverflowError\<close> when that is beyond
  the double range.
\<close>

definition py_truediv :: "int \<Rightarrow> int \<Rightarrow> error + rat" where
  "py_truediv a b =
     (if b = 0 then Inl ZeroDivisionError
      else
        let q = double_of (of_int a / of_int b) in
        if beyond_double q then Inl OverflowError else Inr q)"

text \<open>
  \<^verbatim>\<open>x * n\<close> for a float and a small \<^verbatim>\<open>int\<close> (the script multiplies by 100): the \<^verbatim>\<open>int\<close>
  converts exactly, and the product is rounded to the nearest double.
\<close>

definition float_mul :: "rat \<Rightarrow> rat \<Rightarrow> rat" where
  "float_mul x y = double_of (x * y)"

section \<open>The projector: \<^verbatim>\<open>process_offer\<close>\<close>

text \<open>
  \<^verbatim>\<open>datetime.now()\<close> returns an object of which \<^verbatim>\<open>process_offer\<close> reads four things:
  \<^verbatim>\<open>isoformat()\<close>, \<^verbatim>\<open>strftime("%Y-%m-%d")\<close>, \<^verbatim>\<open>hour\<close> and \<^verbatim>\<open>weekday()\<close>. The record holds
  these four observations of one clock reading.
\<close>

record datetime =
  isoformat :: string
  strftime_date :: string
  hour :: int
  weekday :: int

text \<open>
  \<^verbatim>\<open>process_offer(offer)\<close>, lines 91 to 161. Its first statement reads the clock; the
  reading is the argument \<open>now\<close>, so every call has a reading of its own. The dict literal
  is evaluated top to bottom, and the first \<^verbatim>\<open>offer.get\<close> already raises when the offer is
  not a dict.
\<close>

fun process_offer :: "datetime \<Rightarrow> json \<Rightarrow> error + json" where
  "process_offer now (JObj offer) = Inr (JObj
     [(''timestamp'', JStr (isoformat now)),
      (''date'', JStr (strftime_date now)),
      (''hour'', JInt (hour now)),
      (''day_of_week'', JInt (weekday now)),
      (''is_weekend'', JBool (weekday now \<ge> 5)),
      (''gpu_name'', dict_get offer ''gpu_name'' JNull),
      (''num_gpus'', dict_get offer ''num_gpus'' JNull),
      (''gpu_ram'', dict_get offer ''gpu_ram'' JNull),
      (''gpu_total_ram'', dict_get offer ''gpu_totalram'' JNull),
      (''total_flops'', dict_get offer ''total_flops'' JNull),
      (''dlperf'', dict_get offer ''dlperf'' JNull),
      (''dlperf_per_dphtotal'', dict_get offer ''dlperf_per_dphtotal'' JNull),
      (''machine_id'', dict_get offer ''machine_id'' JNull),
      (''host_id'', dict_get offer ''host_id'' JNull),
      (''reliability'',
         dict_get offer ''reliability2'' (dict_get offer ''reliability'' JNull)),
      (''geolocation'', dict_get offer ''geolocation'' JNull),
      (''datacenter'', dict_get offer ''datacenter'' (JBool False)),
      (''verified'', dict_get offer ''verified'' (JBool False)),
      (''inet_down'', dict_get offer ''inet_down'' JNull),
      (''inet_up'', dict_get offer ''inet_up'' JNull),
      (''static_ip'', dict_get offer ''static_ip'' (JBool False)),
      (''direct_port_count'', dict_get offer ''direct_port_count'' JNull),
      (''cpu_cores'', dict_get offer ''cpu_cores'' JNull),
      (''cpu_ghz'', dict_get offer ''cpu_ghz'' JNull),
      (''cpu_name'', dict_get offer ''cpu_name'' JNull),
      (''disk_space'', dict_get offer ''disk_space'' JNull),
      (''disk_bw'', dict_get offer ''disk_bw'' JNull),
      (''dph_total'', dict_get offer ''dph_total'' JNull),
      (''dph_base'', dict_get offer ''dph_base'' JNull),
      (''storage_cost'', dict_get offer ''storage_cost'' JNull),
      (''inet_up_cost'', dict_get offer ''inet_up_cost'' JNull),
      (''inet_down_cost'', dict_get offer ''inet_down_cost'' JNull),
      (''rented'', dict_get offer ''rented'' (JBool False)),
      (''num_renting'', dict_get offer ''num_renting'' (JInt 0)),
      (''duration'', dict_get offer ''duration'' JNull),
      (''min_bid'', dict_get offer ''min_bid'' JNull),
      (''cuda_max_good'', dict_get offer ''cuda_max_good'' JNull),
      (''compute_cap'', dict_get offer ''compute_cap'' JNull),
      (''pci_gen'', dict_get offer ''pci_gen'' JNull),
      (''pcie_bw'', dict_get offer ''pcie_bw'' JNull)])"
| "process_offer now _ = Inl AttributeError"

section \<open>The fetcher\<close>

text \<open>
  The process environment is the value of \<^verbatim>\<open>VAST_API_KEY\<close>, if set. The network answers
  POST requests: \<open>post n url hs body\<close> is the response to the \<open>n\<close>-th request of the run
  (counting from 0), so a request that is sent again may be answered differently. Every
  function that may send requests takes the number of requests sent before it and
  returns the number sent after it. Of the response object the script reads
  \<^verbatim>\<open>status_code\<close>, \<^verbatim>\<open>text\<close> and the result of \<^verbatim>\<open>json()\<close>, which raises when the body is
  not a JSON document.
\<close>

record response =
  status_code :: int
  body_text :: string
  json_result :: "error + json"

type_synonym network =
  "nat \<Rightarrow> string \<Rightarrow> (string \<times> string) list \<Rightarrow> json \<Rightarrow> response"

definition VAST_API_URL :: string where
  "VAST_API_URL = ''https://console.vast.ai/api/v0/bundles/''"

definition api_key_message :: string where
  "api_key_message =
     ''VAST_API_KEY not found!'' @ [CHR 0x0A] @
     ''Set it with: export VAST_API_KEY='' @ [CHR 0x27] @ ''your-api-key'' @ [CHR 0x27, CHR 0x0A] @
     ''Get your key from: https://cloud.vast.ai/account/''"

text \<open>\<^verbatim>\<open>get_api_key()\<close>, lines 45 to 54: an unset and an empty variable are both refused.\<close>

definition get_api_key :: "string option \<Rightarrow> error + string" where
  "get_api_key env =
     (case env of
        None \<Rightarrow> Inl (ValueError api_key_message)
      | Some api_key \<Rightarrow>
          if api_key = [] then Inl (ValueError api_key_message) else Inr api_key)"

definition headers :: "string \<Rightarrow> (string \<times> string) list" where
  "headers api_key =
     [(''Accept'', ''application/json''),
      (''Content-Type'', ''application/json''),
      (''Authorization'', ''Bearer '' @ api_key)]"

definition payload :: json where
  "payload = JObj
     [(''limit'', JInt 2000),
      (''verified'', JObj [(''eq'', JBool True)]),
      (''rentable'', JObj [(''eq'', JBool True)]),
      (''order'', JList [JList [JStr ''dph_total'', JStr ''asc'']])]"

text \<open>\<^verbatim>\<open>len(x)\<close>: defined on strings, lists and dicts, \<^verbatim>\<open>TypeError\<close> on the rest.\<close>

fun py_len :: "json \<Rightarrow> error + nat" where
  "py_len (JStr s) = Inr (length s)"
| "py_len (JList xs) = Inr (length xs)"
| "py_len (JObj kvs) = Inr (length kvs)"
| "py_len _ = Inl TypeError"

text \<open>
  \<^verbatim>\<open>fetch_vast_offers(api_key)\<close>, lines 57 to 88. One request is sent, whatever the
  answer; any status other than 200 raises \<^verbatim>\<open>Exception\<close> with the status and the body in
  its message. On status 200 the body is decoded, \<^verbatim>\<open>data.get("offers", [])\<close> is taken (so
  \<^verbatim>\<open>data\<close> has to be a dict), and the progress line evaluates \<^verbatim>\<open>len(offers)\<close> before the
  value is returned.
\<close>

definition fetch_vast_offers :: "network \<Rightarrow> nat \<Rightarrow> string \<Rightarrow> (error + json) \<times> nat" where
  "fetch_vast_offers post sent api_key =
     (let response = post sent VAST_API_URL (headers api_key) payload in
      (if status_code response \<noteq> 200 then
         Inl (Exception
           (''API Error: '' @ str_int (status_code response) @ '' - '' @ body_text response))
       else
         case json_result response of
           Inl e \<Rightarrow> Inl e
         | Inr data \<Rightarrow>
             (case py_get data ''offers'' (JList []) of
                Inl e \<Rightarrow> Inl e
              | Inr offers \<Rightarrow>
                  (case py_len offers of Inl e \<Rightarrow> Inl e | Inr n \<Rightarrow> Inr offers)),
       Suc sent))"

section \<open>Collecting one batch\<close>

text \<open>
  \<^verbatim>\<open>for x in v\<close>: a list yields its elements, a dict its keys, a string its characters;
  no other value is iterable.
\<close>

fun py_iter :: "json \<Rightarrow> error + json list" where
  "py_iter (JList xs) = Inr xs"
| "py_iter (JObj kvs) = Inr (map (\<lambda>kv. JStr (fst kv)) kvs)"
| "py_iter (JStr s) = Inr (map (\<lambda>c. JStr [c]) s)"
| "py_iter _ = Inl TypeError"

text \<open>
  The clock of a run: \<open>clock n\<close> is what the \<open>n\<close>-th call of \<^verbatim>\<open>datetime.now()\<close> returns
  (counting from 0). The loop of \<^verbatim>\<open>collect_data\<close>, lines 176 to 182, calls
  \<^verbatim>\<open>process_offer\<close> once per offer, and each call reads the clock once; an offer whose
  projection raises is skipped.
\<close>

type_synonym clock = "nat \<Rightarrow> datetime"

fun process_offers :: "clock \<Rightarrow> nat \<Rightarrow> json list \<Rightarrow> json list" where
  "process_offers now n [] = []"
| "process_offers now n (offer # offers) =
     (case process_offer (now n) offer of
        Inr record \<Rightarrow> record # process_offers now (Suc n) offers
      | Inl e \<Rightarrow> process_offers now (Suc n) offers)"

text \<open>
  \<^verbatim>\<open>collect_data()\<close>, lines 164 to 185; \<open>sent\<close> is the number of requests sent and \<open>n\<close>
  the number of clock readings taken before the call. Without a credential no request
  is sent.
\<close>

definition collect_data ::
  "string option \<Rightarrow> network \<Rightarrow> nat \<Rightarrow> clock \<Rightarrow> nat \<Rightarrow> (error + json list) \<times> nat" where
  "collect_data env post sent now n =
     (case get_api_key env of
        Inl e \<Rightarrow> (Inl e, sent)
      | Inr api_key \<Rightarrow>
          (let (fetched, sent') = fetch_vast_offers post sent api_key in
           case fetched of
             Inl e \<Rightarrow> (Inl e, sent')
           | Inr offers \<Rightarrow>
               (case py_iter offers of
                  Inl e \<Rightarrow> (Inl e, sent')
                | Inr xs \<Rightarrow> (Inr (process_offers now n xs), sent'))))"

section \<open>The store\<close>

text \<open>
  The file system, as far as the script touches it: whether the directory \<^verbatim>\<open>data\<close>
  exists, and the content of \<^verbatim>\<open>data/vast_historical_data.json\<close> if that file exists.
  The codec is the standard library's: \<open>dump\<close> stands for \<^verbatim>\<open>json.dump(_, f, indent=2)\<close>
  and \<open>load\<close> for \<^verbatim>\<open>json.load\<close>, which raises on a text that is not a JSON document.
  Both are parameters, and \<open>'t\<close> is the type of file contents.
\<close>

record 't filesystem =
  data_dir :: bool
  data_file :: "'t option"

text \<open>\<^verbatim>\<open>load_existing_data()\<close>, lines 188 to 193.\<close>

definition load_existing_data :: "('t \<Rightarrow> error + json) \<Rightarrow> 't filesystem \<Rightarrow> error + json" where
  "load_existing_data load fs =
     (case data_file fs of
        Some content \<Rightarrow> load content
      | None \<Rightarrow> Inr (JList []))"

text \<open>
  \<^verbatim>\<open>save_data(records)\<close>, lines 196 to 203: the directory is created if missing and the
  file is opened for writing, which replaces whatever it held.
\<close>

definition save_data :: "(json \<Rightarrow> 't) \<Rightarrow> json \<Rightarrow> 't filesystem \<Rightarrow> 't filesystem" where
  "save_data dump records fs = fs\<lparr>data_dir := True, data_file := Some (dump records)\<rparr>"

section \<open>Built-ins used by the reporter\<close>

text \<open>
  The numbers among the values: \<^verbatim>\<open>bool\<close> is a subtype of \<^verbatim>\<open>int\<close> in Python, so
  \<^verbatim>\<open>True\<close> counts as 1 and \<^verbatim>\<open>False\<close> as 0 wherever a number is compared, sorted or
  rounded.
\<close>

fun num_val :: "json \<Rightarrow> rat option" where
  "num_val (JBool b) = Some (if b then 1 else 0)"
| "num_val (JInt i) = Some (of_int i)"
| "num_val (JFloat q) = Some q"
| "num_val _ = None"

definition is_num :: "json \<Rightarrow> bool" where
  "is_num v = (num_val v \<noteq> None)"

definition num_key :: "json \<Rightarrow> rat" where
  "num_key v = (case num_val v of Some q \<Rightarrow> q | None \<Rightarrow> 0)"

text \<open>
  \<^verbatim>\<open>x == y\<close>: numbers compare by value across \<^verbatim>\<open>bool\<close>, \<^verbatim>\<open>int\<close> and \<^verbatim>\<open>float\<close>, strings
  and \<^verbatim>\<open>None\<close> compare with their own kind only, lists compare element by element, and
  two dicts are equal when they have the same number of items and every item of the
  first has an equal value under the same key in the second.
\<close>

fun py_eq :: "json \<Rightarrow> json \<Rightarrow> bool"
  and py_eq_list :: "json list \<Rightarrow> json list \<Rightarrow> bool"
  and py_eq_items :: "(string \<times> json) list \<Rightarrow> (string \<times> json) list \<Rightarrow> bool"
  and py_eq_item :: "string \<Rightarrow> json \<Rightarrow> (string \<times> json) list \<Rightarrow> bool"
where
  "py_eq JNull JNull = True"
| "py_eq (JStr s) (JStr t) = (s = t)"
| "py_eq (JList xs) (JList ys) = py_eq_list xs ys"
| "py_eq (JObj a) (JObj b) = (length a = length b \<and> py_eq_items a b)"
| "py_eq x y =
     (case num_val x of
        None \<Rightarrow> False
      | Some p \<Rightarrow> (case num_val y of None \<Rightarrow> False | Some q \<Rightarrow> p = q))"
| "py_eq_list [] [] = True"
| "py_eq_list (x # xs) (y # ys) = (py_eq x y \<and> py_eq_list xs ys)"
| "py_eq_list _ _ = False"
| "py_eq_items [] b = True"
| "py_eq_items (kv # a) b = (py_eq_item (fst kv) (snd kv) b \<and> py_eq_items a b)"
| "py_eq_item k v [] = False"
| "py_eq_item k v (kw # b) = (if fst kw = k then py_eq v (snd kw) else py_eq_item k v b)"

text \<open>Lists and dicts are not hashable: using one as a dict key raises \<^verbatim>\<open>TypeError\<close>.\<close>

fun hashable :: "json \<Rightarrow> bool" where
  "hashable (JList xs) = False"
| "hashable (JObj kvs) = False"
| "hashable _ = True"

text \<open>
  A dict whose keys are values (the three tallies and the result of the reporter are
  keyed by the GPU name, which is whatever the record holds): an association list in
  insertion order. A key is found by \<^verbatim>\<open>==\<close>; storing under a key that is already there
  keeps the stored key and its position and replaces the value, a new key goes to the
  end.
\<close>

fun pd_get :: "(json \<times> 'v) list \<Rightarrow> json \<Rightarrow> 'v option" where
  "pd_get [] k = None"
| "pd_get (kv # d) k = (if py_eq (fst kv) k then Some (snd kv) else pd_get d k)"

fun pd_set :: "(json \<times> 'v) list \<Rightarrow> json \<Rightarrow> 'v \<Rightarrow> (json \<times> 'v) list" where
  "pd_set [] k v = [(k, v)]"
| "pd_set (kv # d) k v =
     (if py_eq (fst kv) k then (fst kv, v) # d else kv # pd_set d k v)"

definition pd_get_default :: "(json \<times> 'v) list \<Rightarrow> json \<Rightarrow> 'v \<Rightarrow> 'v" where
  "pd_get_default d k dflt = (case pd_get d k of Some v \<Rightarrow> v | None \<Rightarrow> dflt)"

text \<open>
  \<^verbatim>\<open>sorted(xs)\<close>: a stable ascending sort. Numbers are ordered by value. A list of at
  most one element is returned as it is, whatever it holds, since nothing is compared.
  Two or more elements that are not all numbers raise \<^verbatim>\<open>TypeError\<close>: a number is not
  comparable with any other kind. (Python can also order a list of strings or of lists;
  line 244 then raises the same \<^verbatim>\<open>TypeError\<close> from \<^verbatim>\<open>round\<close>, with nothing observable in
  between.)
\<close>

definition py_sorted :: "json list \<Rightarrow> error + json list" where
  "py_sorted xs =
     (if list_all is_num xs then Inr (sort_key num_key xs)
      else if length xs \<le> 1 then Inr xs
      else Inl TypeError)"

text \<open>
  \<^verbatim>\<open>min(xs)\<close> and \<^verbatim>\<open>max(xs)\<close> on a non-empty list of numbers: both return the first
  element that attains the extreme value.
\<close>

fun py_min :: "json list \<Rightarrow> json" where
  "py_min [] = JNull"
| "py_min [x] = x"
| "py_min (x # xs) = (let m = py_min xs in if num_key m < num_key x then m else x)"

fun py_max :: "json list \<Rightarrow> json" where
  "py_max [] = JNull"
| "py_max [x] = x"
| "py_max (x # xs) = (let m = py_max xs in if num_key m > num_key x then m else x)"

text \<open>
  \<^verbatim>\<open>round(x, ndigits)\<close> with a positive number of digits: an \<^verbatim>\<open>int\<close> is returned
  unchanged, a \<^verbatim>\<open>bool\<close> becomes the \<^verbatim>\<open>int\<close> it stands for, and any value that is not a
  number raises \<^verbatim>\<open>TypeError\<close>. For a \<^verbatim>\<open>float\<close> the exact value of the double is rounded to
  that many decimals, a tie going to the even digit, and the result is the double nearest
  to that decimal number.
\<close>

fun py_round :: "json \<Rightarrow> nat \<Rightarrow> error + json" where
  "py_round (JInt i) ndigits = Inr (JInt i)"
| "py_round (JBool b) ndigits = Inr (JInt (if b then 1 else 0))"
| "py_round (JFloat q) ndigits =
     Inr (JFloat (double_of (of_int (round_half_even (q * 10 ^ ndigits)) / 10 ^ ndigits)))"
| "py_round _ ndigits = Inl TypeError"

section \<open>The reporter: \<^verbatim>\<open>get_summary_stats\<close>\<close>

text \<open>
  The list comprehension of line 213: \<^verbatim>\<open>r["timestamp"]\<close> is evaluated for every record,
  in order, and the first record without it raises.
\<close>

fun latest_batch :: "json \<Rightarrow> json list \<Rightarrow> error + json list" where
  "latest_batch latest_timestamp [] = Inr []"
| "latest_batch latest_timestamp (r # rs) =
     (case py_getitem r ''timestamp'' of
        Inl e \<Rightarrow> Inl e
      | Inr t \<Rightarrow>
          (case latest_batch latest_timestamp rs of
             Inl e \<Rightarrow> Inl e
           | Inr batch \<Rightarrow> Inr (if py_eq t latest_timestamp then r # batch else batch)))"

text \<open>The three dicts filled by the loop of lines 220 to 230.\<close>

record tallies =
  gpu_counts :: "(json \<times> int) list"
  rented_counts :: "(json \<times> int) list"
  price_by_gpu :: "(json \<times> json list) list"

text \<open>
  One pass of the loop body, lines 221 to 230. The first dict access with \<^verbatim>\<open>gpu\<close> as key
  raises \<^verbatim>\<open>TypeError\<close> when the GPU name is a list or a dict. The price is appended when
  \<^verbatim>\<open>r.get("dph_total")\<close> is truthy.
\<close>

fun tally :: "json \<Rightarrow> tallies \<Rightarrow> error + tallies" where
  "tally (JObj r) s =
     (let gpu = dict_get r ''gpu_name'' (JStr ''Unknown'') in
      if \<not> hashable gpu then Inl TypeError
      else
        let s1 = s\<lparr>gpu_counts :=
                   pd_set (gpu_counts s) gpu (pd_get_default (gpu_counts s) gpu 0 + 1)\<rparr>;
            s2 = (if truthy (dict_get r ''rented'' JNull)
                  then s1\<lparr>rented_counts :=
                         pd_set (rented_counts s1) gpu
                           (pd_get_default (rented_counts s1) gpu 0 + 1)\<rparr>
                  else s1);
            s3 = (if pd_get (price_by_gpu s2) gpu = None
                  then s2\<lparr>price_by_gpu := pd_set (price_by_gpu s2) gpu []\<rparr>
                  else s2);
            s4 = (if truthy (dict_get r ''dph_total'' JNull)
                  then s3\<lparr>price_by_gpu :=
                         pd_set (price_by_gpu s3) gpu
                           (pd_get_default (price_by_gpu s3) gpu []
                              @ [dict_get r ''dph_total'' JNull])\<rparr>
                  else s3)
        in Inr s4)"
| "tally _ s = Inl AttributeError"

fun tally_all :: "json list \<Rightarrow> tallies \<Rightarrow> error + tallies" where
  "tally_all [] s = Inr s"
| "tally_all (r # rs) s =
     (case tally r s of Inl e \<Rightarrow> Inl e | Inr s' \<Rightarrow> tally_all rs s')"

text \<open>
  The dict literal of lines 239 to 247 for one GPU, from its total, its rented count and
  its sorted prices. The rate of line 243 is computed in floats: the quotient is rounded
  to a double, so is its product with 100, and \<^verbatim>\<open>round\<close> works on that double.
\<close>

definition gpu_entry :: "int \<Rightarrow> int \<Rightarrow> json list \<Rightarrow> error + json" where
  "gpu_entry total_count rented prices =
     (case (if total_count > 0
            then (case py_truediv rented total_count of
                    Inl e \<Rightarrow> Inl e
                  | Inr q \<Rightarrow> py_round (JFloat (float_mul q 100)) 1)
            else Inr (JInt 0)) of
        Inl e \<Rightarrow> Inl e
      | Inr rental_rate \<Rightarrow>
     (case (if prices \<noteq> [] then py_round (py_min prices) 3 else Inr JNull) of
        Inl e \<Rightarrow> Inl e
      | Inr price_min \<Rightarrow>
     (case (if prices \<noteq> [] then py_round (prices ! (length prices div 2)) 3
            else Inr JNull) of
        Inl e \<Rightarrow> Inl e
      | Inr price_median \<Rightarrow>
     (case (if prices \<noteq> [] then py_round (py_max prices) 3 else Inr JNull) of
        Inl e \<Rightarrow> Inl e
      | Inr price_max \<Rightarrow>
          Inr (JObj
            [(''total'', JInt total_count),
             (''rented'', JInt rented),
             (''available'', JInt (total_count - rented)),
             (''rental_rate'', rental_rate),
             (''price_min'', price_min),
             (''price_median'', price_median),
             (''price_max'', price_max)])))))"

text \<open>
  The loop of lines 234 to 247 over the keys of \<^verbatim>\<open>gpu_counts\<close>, in insertion order;
  \<open>stats\<close> is the dict built so far.
\<close>

fun summarise ::
  "tallies \<Rightarrow> json list \<Rightarrow> (json \<times> json) list \<Rightarrow> error + (json \<times> json) list" where
  "summarise s [] stats = Inr stats"
| "summarise s (gpu # gpus) stats =
     (let rented = pd_get_default (rented_counts s) gpu 0 in
      case pd_get (gpu_counts s) gpu of
        None \<Rightarrow> Inl KeyError
      | Some total_count \<Rightarrow>
          (case py_sorted (pd_get_default (price_by_gpu s) gpu []) of
             Inl e \<Rightarrow> Inl e
           | Inr prices \<Rightarrow>
               (case gpu_entry total_count rented prices of
                  Inl e \<Rightarrow> Inl e
                | Inr entry \<Rightarrow> summarise s gpus (pd_set stats gpu entry))))"

text \<open>\<^verbatim>\<open>get_summary_stats(records)\<close>, lines 206 to 249.\<close>

definition get_summary_stats :: "json list \<Rightarrow> error + (json \<times> json) list" where
  "get_summary_stats records =
     (if records = [] then Inr []
      else
        case py_getitem (last records) ''timestamp'' of
          Inl e \<Rightarrow> Inl e
        | Inr latest_timestamp \<Rightarrow>
            (case latest_batch latest_timestamp records of
               Inl e \<Rightarrow> Inl e
             | Inr batch \<Rightarrow>
                 (case tally_all batch
                         \<lparr>gpu_counts = [], rented_counts = [], price_by_gpu = []\<rparr> of
                    Inl e \<Rightarrow> Inl e
                  | Inr s \<Rightarrow> summarise s (map fst (gpu_counts s)) [])))"

section \<open>The run: \<^verbatim>\<open>print_summary\<close> and \<^verbatim>\<open>main\<close>\<close>

text \<open>
  \<^verbatim>\<open>print_summary(stats)\<close>, lines 252 to 267, writes to the console only; what matters
  here is whether it raises. Two format specifications occur. \<^verbatim>\<open>.2f\<close> formats a number
  as a float: an \<^verbatim>\<open>int\<close> beyond the double range raises \<^verbatim>\<open>OverflowError\<close>, a string
  raises \<^verbatim>\<open>ValueError\<close> and any other value that is not a number \<^verbatim>\<open>TypeError\<close>. The
  alignments \<^verbatim>\<open><20\<close>, \<^verbatim>\<open><8\<close> and \<^verbatim>\<open><7\<close> are supported by numbers and strings, not by
  \<^verbatim>\<open>None\<close>, lists and dicts.
\<close>

definition format_code_message :: string where
  "format_code_message =
     ''Unknown format code '' @ [CHR 0x27] @ ''f'' @ [CHR 0x27] @
     '' for object of type '' @ [CHR 0x27] @ ''str'' @ [CHR 0x27]"

fun format_2f :: "json \<Rightarrow> error + unit" where
  "format_2f (JInt i) =
     (if beyond_double (double_of (of_int i)) then Inl OverflowError else Inr ())"
| "format_2f (JBool b) = Inr ()"
| "format_2f (JFloat q) = Inr ()"
| "format_2f (JStr s) = Inl (ValueError format_code_message)"
| "format_2f _ = Inl TypeError"

fun format_align :: "json \<Rightarrow> error + unit" where
  "format_align JNull = Inl TypeError"
| "format_align (JList xs) = Inl TypeError"
| "format_align (JObj kvs) = Inl TypeError"
| "format_align _ = Inr ()"

text \<open>
  One pass of the loop of lines 263 to 265 for the item \<open>x\<close>: line 264 tests
  \<^verbatim>\<open>data['price_min']\<close> for truthiness and, if truthy, formats it and \<^verbatim>\<open>data['price_max']\<close>;
  line 265 formats the GPU name and three more fields of the entry from left to right.
\<close>

definition print_row :: "json \<times> json \<Rightarrow> error + unit" where
  "print_row x =
     (let gpu = fst x; data = snd x in
      case py_getitem data ''price_min'' of
        Inl e \<Rightarrow> Inl e
      | Inr price_min \<Rightarrow>
     (case (if truthy price_min
            then (case format_2f price_min of
                    Inl e \<Rightarrow> Inl e
                  | Inr u \<Rightarrow>
                      (case py_getitem data ''price_max'' of
                         Inl e \<Rightarrow> Inl e
                       | Inr price_max \<Rightarrow> format_2f price_max))
            else Inr ()) of
        Inl e \<Rightarrow> Inl e
      | Inr price_range \<Rightarrow>
     (case format_align gpu of
        Inl e \<Rightarrow> Inl e
      | Inr u \<Rightarrow>
     (case py_getitem data ''total'' of
        Inl e \<Rightarrow> Inl e
      | Inr t \<Rightarrow>
     (case format_align t of
        Inl e \<Rightarrow> Inl e
      | Inr u \<Rightarrow>
     (case py_getitem data ''rented'' of
        Inl e \<Rightarrow> Inl e
      | Inr r \<Rightarrow>
     (case format_align r of
        Inl e \<Rightarrow> Inl e
      | Inr u \<Rightarrow>
     (case py_getitem data ''rental_rate'' of
        Inl e \<Rightarrow> Inl e
      | Inr rate \<Rightarrow> format_align rate))))))))"

fun print_rows :: "(json \<times> json) list \<Rightarrow> error + unit" where
  "print_rows [] = Inr ()"
| "print_rows (x # xs) =
     (case print_row x of Inl e \<Rightarrow> Inl e | Inr u \<Rightarrow> print_rows xs)"

text \<open>
  The sort key of line 261, \<^verbatim>\<open>x[1]['total']\<close>, is computed for every item in order
  before anything is compared.
\<close>

fun totals_of :: "(json \<times> json) list \<Rightarrow> error + json list" where
  "totals_of [] = Inr []"
| "totals_of (x # xs) =
     (case py_getitem (snd x) ''total'' of
        Inl e \<Rightarrow> Inl e
      | Inr t \<Rightarrow>
          (case totals_of xs of Inl e \<Rightarrow> Inl e | Inr ts \<Rightarrow> Inr (t # ts)))"

text \<open>
  The rows are the 15 items with the largest totals; \<^verbatim>\<open>sorted\<close> with \<^verbatim>\<open>reverse=True\<close> is
  a stable descending sort. Keys that are not all numbers are treated as by
  \<^const>\<open>py_sorted\<close>.
\<close>

definition print_summary :: "(json \<times> json) list \<Rightarrow> error + unit" where
  "print_summary stats =
     (case totals_of stats of
        Inl e \<Rightarrow> Inl e
      | Inr keys \<Rightarrow>
          if list_all is_num keys \<or> length keys \<le> 1
          then
            (let sorted_gpus =
                   take 15 (map snd (sort_key (\<lambda>kx. - num_key (fst kx)) (zip keys stats)))
             in print_rows sorted_gpus)
          else Inl TypeError)"

text \<open>\<^verbatim>\<open>existing_data + new_records\<close>: only a list can be concatenated with a list.\<close>

fun py_add_list :: "json \<Rightarrow> json list \<Rightarrow> error + json list" where
  "py_add_list (JList xs) ys = Inr (xs @ ys)"
| "py_add_list _ ys = Inl TypeError"

text \<open>
  The two \<^verbatim>\<open>except\<close> clauses of \<^verbatim>\<open>main\<close>, lines 306 to 310: a \<^verbatim>\<open>ValueError\<close> (the JSON
  decoder's error is one) is reported and the run ends normally, any other exception is
  reported and raised again.
\<close>

fun handled :: "error \<Rightarrow> error option" where
  "handled (ValueError m) = None"
| "handled JSONDecodeError = None"
| "handled e = Some e"

text \<open>
  \<^verbatim>\<open>main()\<close>, lines 274 to 310, as a function of the world it runs in: the codec, the
  environment variable, the network, the clock and the file system. It returns the file
  system it leaves behind, the exception that escapes, if any, and the number of
  requests it has sent. The banner of line 278 takes clock reading 0, so
  \<^verbatim>\<open>collect_data\<close> starts at reading 1. Line 291 evaluates \<^verbatim>\<open>len(existing_data)\<close> before the
  two sequences are concatenated.
\<close>

definition main ::
  "(json \<Rightarrow> 't) \<Rightarrow> ('t \<Rightarrow> error + json) \<Rightarrow> string option \<Rightarrow> network \<Rightarrow> clock
     \<Rightarrow> 't filesystem \<Rightarrow> 't filesystem \<times> error option \<times> nat" where
  "main dump load env post now fs =
     (let (collected, sent) = collect_data env post 0 now 1 in
      case collected of
        Inl e \<Rightarrow> (fs, handled e, sent)
      | Inr new_records \<Rightarrow>
          if new_records = [] then (fs, None, sent)
          else
            (case load_existing_data load fs of
               Inl e \<Rightarrow> (fs, handled e, sent)
             | Inr existing_data \<Rightarrow>
                 (case py_len existing_data of
                    Inl e \<Rightarrow> (fs, handled e, sent)
                  | Inr n \<Rightarrow>
                      (case py_add_list existing_data new_records of
                         Inl e \<Rightarrow> (fs, handled e, sent)
                       | Inr all_records \<Rightarrow>
                           (let fs' = save_data dump (JList all_records) fs in
                            case get_summary_stats all_records of
                              Inl e \<Rightarrow> (fs', handled e, sent)
                            | Inr stats \<Rightarrow>
                                (case print_summary stats of
                                   Inl e \<Rightarrow> (fs', handled e, sent)
                                 | Inr u \<Rightarrow> (fs', None, sent)))))))"

section \<open>Notions used to state the properties\<close>

text \<open>A field of a record, with a default for a missing key (and for a non-dict).\<close>

definition field :: "json \<Rightarrow> string \<Rightarrow> json \<Rightarrow> json" where
  "field r k d = (case r of JObj kvs \<Rightarrow> dict_get kvs k d | _ \<Rightarrow> d)"

text \<open>The category of a record is its GPU name, as line 221 reads it.\<close>

definition gpu_of :: "json \<Rightarrow> json" where
  "gpu_of r = field r ''gpu_name'' (JStr ''Unknown'')"

text \<open>
  The latest batch of a dataset: the records whose timestamp equals that of the last
  record. Within a batch, the records of category \<open>g\<close>, those of them that count as
  rented, and the prices that enter the price statistics of \<open>g\<close>: the \<^verbatim>\<open>dph_total\<close> values
  that are truthy, in dataset order.
\<close>

definition batch_of :: "json list \<Rightarrow> json list" where
  "batch_of records =
     filter
       (\<lambda>r. py_eq (field r ''timestamp'' JNull) (field (last records) ''timestamp'' JNull))
       records"

definition category :: "json \<Rightarrow> json list \<Rightarrow> json list" where
  "category g rs = filter (\<lambda>r. py_eq (gpu_of r) g) rs"

definition cat_rented :: "json \<Rightarrow> json list \<Rightarrow> json list" where
  "cat_rented g rs = filter (\<lambda>r. truthy (field r ''rented'' JNull)) (category g rs)"

definition cat_prices :: "json \<Rightarrow> json list \<Rightarrow> json list" where
  "cat_prices g rs = filter truthy (map (\<lambda>r. field r ''dph_total'' JNull) (category g rs))"

text \<open>What a result of the reporter says about one GPU under one key of its entry.\<close>

definition reported :: "error + (json \<times> json) list \<Rightarrow> json \<Rightarrow> string \<Rightarrow> json option" where
  "reported result gpu k =
     (case result of
        Inl e \<Rightarrow> None
      | Inr stats \<Rightarrow>
          (case pd_get stats gpu of
             None \<Rightarrow> None
           | Some entry \<Rightarrow> (case py_getitem entry k of Inl e \<Rightarrow> None | Inr v \<Rightarrow> Some v)))"

text \<open>
  Records on which the reporter cannot raise: a dict with a timestamp, a hashable GPU
  name, and a price that is a number whenever it is truthy.
\<close>

definition well_formed :: "json \<Rightarrow> bool" where
  "well_formed r =
     ((case py_getitem r ''timestamp'' of Inr t \<Rightarrow> True | Inl e \<Rightarrow> False) \<and>
      hashable (gpu_of r) \<and>
      (if truthy (field r ''dph_total'' JNull) then is_num (field r ''dph_total'' JNull)
       else True))"

text \<open>
  A field of the record that \<^verbatim>\<open>process_offer\<close> builds from an offer, and the extraction
  policy of lines 112 to 160 as two tables: the flags that default to \<^verbatim>\<open>False\<close>, and the
  output fields, each with its input key, that are \<^verbatim>\<open>None\<close> when the key is missing.
  The remaining two fields, \<^verbatim>\<open>reliability\<close> and \<^verbatim>\<open>num_renting\<close>, have rules of their own.
\<close>

definition projected :: "datetime \<Rightarrow> json \<Rightarrow> string \<Rightarrow> json option" where
  "projected now offer k =
     (case process_offer now offer of Inr (JObj record) \<Rightarrow> map_of record k | _ \<Rightarrow> None)"

definition false_when_absent :: "string list" where
  "false_when_absent = [''datacenter'', ''verified'', ''static_ip'', ''rented'']"

definition null_when_absent :: "(string \<times> string) list" where
  "null_when_absent =
    [(''gpu_name'', ''gpu_name''), (''num_gpus'', ''num_gpus''), (''gpu_ram'', ''gpu_ram''),
     (''gpu_total_ram'', ''gpu_totalram''), (''total_flops'', ''total_flops''),
     (''dlperf'', ''dlperf''), (''dlperf_per_dphtotal'', ''dlperf_per_dphtotal''),
     (''machine_id'', ''machine_id''), (''host_id'', ''host_id''),
     (''geolocation'', ''geolocation''), (''inet_down'', ''inet_down''),
     (''inet_up'', ''inet_up''), (''direct_port_count'', ''direct_port_count''),
     (''cpu_cores'', ''cpu_cores''), (''cpu_ghz'', ''cpu_ghz''), (''cpu_name'', ''cpu_name''),
     (''disk_space'', ''disk_space''), (''disk_bw'', ''disk_bw''),
     (''dph_total'', ''dph_total''), (''dph_base'', ''dph_base''),
     (''storage_cost'', ''storage_cost''), (''inet_up_cost'', ''inet_up_cost''),
     (''inet_down_cost'', ''inet_down_cost''), (''duration'', ''duration''),
     (''min_bid'', ''min_bid''), (''cuda_max_good'', ''cuda_max_good''),
     (''compute_cap'', ''compute_cap''), (''pci_gen'', ''pci_gen''), (''pcie_bw'', ''pcie_bw'')]"

subsection \<open>Auxiliary notions of the proofs\<close>

text \<open>Every key of a value-keyed dict is hashable.\<close>

definition keys_ok :: "(json \<times> 'v) list \<Rightarrow> bool" where
  "keys_ok d = list_all (\<lambda>kv. hashable (fst kv)) d"

text \<open>What lines 227 to 230 do to \<^verbatim>\<open>price_by_gpu\<close> for a record of GPU \<open>gpu\<close> and price \<open>p\<close>.\<close>

definition price_step ::
  "json \<Rightarrow> json \<Rightarrow> (json \<times> json list) list \<Rightarrow> (json \<times> json list) list" where
  "price_step gpu p d =
     (let d1 = (if pd_get d gpu = None then pd_set d gpu [] else d) in
      if truthy p then pd_set d1 gpu (pd_get_default d1 gpu [] @ [p]) else d1)"

text \<open>The entry that the loop of lines 234 to 247 computes for \<open>g\<close> from the tallies.\<close>

definition right_entry :: "tallies \<Rightarrow> json \<Rightarrow> json \<Rightarrow> bool" where
  "right_entry s g e =
     (\<exists>n prices. pd_get (gpu_counts s) g = Some n \<and>
        py_sorted (pd_get_default (price_by_gpu s) g []) = Inr prices \<and>
        gpu_entry n (pd_get_default (rented_counts s) g 0) prices = Inr e)"

section \<open>Example inputs\<close>

text \<open>A decoder that hands back the document it is given, and a file system without dataset.\<close>

definition identity_load :: "json \<Rightarrow> error + json" where
  "identity_load content = Inr content"

definition no_dataset :: "json filesystem" where
  "no_dataset = \<lparr>data_dir = False, data_file = None\<rparr>"

text \<open>Records reduced to the four fields the reporter reads.\<close>

definition example_record :: "string \<Rightarrow> json \<Rightarrow> json \<Rightarrow> json \<Rightarrow> json" where
  "example_record t gpu is_rented price =
     JObj [(''timestamp'', JStr t), (''gpu_name'', gpu), (''rented'', is_rented),
           (''dph_total'', price)]"

text \<open>One batch, one GPU, the prices 10, 20, 30 and 40, and the entry reported for it.\<close>

definition four_prices :: "json list" where
  "four_prices =
     map (example_record ''2024-05-01T12:00:00.000001'' (JStr ''RTX 4090'') (JBool False))
       [JInt 10, JInt 20, JInt 30, JInt 40]"

definition four_entry :: json where
  "four_entry = JObj
     [(''total'', JInt 4), (''rented'', JInt 0), (''available'', JInt 4),
      (''rental_rate'', JFloat 0), (''price_min'', JInt 10), (''price_median'', JInt 30),
      (''price_max'', JInt 40)]"

text \<open>One batch, one GPU, a listing offered at price 0 and one at price 5.\<close>

definition zero_and_five :: "json list" where
  "zero_and_five =
     map (example_record ''2024-05-01T12:00:00.000001'' (JStr ''RTX 4090'') (JBool False))
       [JInt 0, JInt 5]"

definition five_entry :: json where
  "five_entry = JObj
     [(''total'', JInt 2), (''rented'', JInt 0), (''available'', JInt 2),
      (''rental_rate'', JFloat 0), (''price_min'', JInt 5), (''price_median'', JInt 5),
      (''price_max'', JInt 5)]"


text \<open>A clock reading, and an offer that has a GPU name and the older reliability key only.\<close>

definition noon :: datetime where
  "noon = \<lparr>isoformat = ''2024-05-01T12:00:00.000001'', strftime_date = ''2024-05-01'',
            hour = 12, weekday = 2\<rparr>"

definition sparse_offer :: "(string \<times> json) list" where
  "sparse_offer = [(''gpu_name'', JStr ''RTX 4090''), (''reliability'', JFloat (15 / 16))]"

text \<open>
  Servers: one that always answers 404; one that answers 201 with two listings in the
  body; one that answers the first request with 503 and every later one with two
  listings; one that always answers with two listings and one that answers with three.
\<close>

definition not_found_network :: network where
  "not_found_network n url hs body =
     \<lparr>status_code = 404, body_text = ''Not Found'', json_result = Inl JSONDecodeError\<rparr>"

definition two_listings :: "json list" where
  "two_listings =
     [JObj [(''gpu_name'', JStr ''RTX 4090''), (''dph_total'', JFloat (1 / 2))],
      JObj [(''gpu_name'', JStr ''RTX 4090''), (''dph_total'', JFloat (3 / 4))]]"

definition two_listings_network :: network where
  "two_listings_network n url hs body =
     \<lparr>status_code = 200, body_text = ''{...}'',
      json_result = Inr (JObj [(''offers'', JList two_listings)])\<rparr>"

definition created_network :: network where
  "created_network n url hs body =
     \<lparr>status_code = 201, body_text = ''{...}'',
      json_result = Inr (JObj [(''offers'', JList two_listings)])\<rparr>"

definition flaky_network :: network where
  "flaky_network n url hs body =
     (if n = 0
      then \<lparr>status_code = 503, body_text = ''Service Unavailable'',
             json_result = Inl JSONDecodeError\<rparr>
      else two_listings_network n url hs body)"

definition three_listings_network :: network where
  "three_listings_network n url hs body =
     \<lparr>status_code = 200, body_text = ''{...}'',
      json_result = Inr (JObj [(''offers'', JList
        [JObj [(''gpu_name'', JStr ''RTX 4090''), (''reliability2'', JFloat (15 / 16)),
               (''dph_total'', JFloat (1 / 2)), (''dph_base'', JFloat (3 / 8))],
         JObj [(''gpu_name'', JStr ''RTX 4090''), (''reliability'', JFloat (7 / 8)),
               (''dph_total'', JFloat (3 / 4)), (''dph_base'', JFloat (5 / 8))],
         JObj [(''gpu_name'', JStr ''A100'')]])])\<rparr>"

text \<open>
  A clock that advances by one microsecond from reading to reading, and the batches that
  \<^verbatim>\<open>collect_data\<close> produces under it from the two and from the three listings.
\<close>

definition ticking_clock :: clock where
  "ticking_clock n =
     \<lparr>isoformat = ''2024-05-01T12:00:00.00000'' @ str_nat n, strftime_date = ''2024-05-01'',
      hour = 12, weekday = 2\<rparr>"

definition one_run :: "json list" where
  "one_run =
     (case fst (collect_data (Some ''key'') two_listings_network 0 ticking_clock 1) of
        Inr records \<Rightarrow> records
      | Inl e \<Rightarrow> [])"

definition three_records :: "json list" where
  "three_records =
     (case fst (collect_data (Some ''key'') three_listings_network 0 ticking_clock 1) of
        Inr records \<Rightarrow> records
      | Inl e \<Rightarrow> [])"

text \<open>A dataset of 100 records of an earlier run, and the file system that stores it.\<close>

definition hundred_records :: "json list" where
  "hundred_records =
     replicate 100
       (example_record ''2024-04-30T12:00:00.000001'' (JStr ''RTX 3090'') (JBool True)
          (JFloat (1 / 4)))"

definition hundred_stored :: "json filesystem" where
  "hundred_stored = \<lparr>data_dir = True, data_file = Some (JList hundred_records)\<rparr>"

text \<open>
  One batch, one GPU, four float prices: 0.05, 0.1, 0.12345 and 0.2, and the entry
  reported for it.
\<close>

definition float_prices :: "json list" where
  "float_prices =
     map (example_record ''2024-05-01T12:00:00.000001'' (JStr ''RTX 4090'') (JBool False))
       [JFloat (double_of (5 / 100)), JFloat (double_of (1 / 10)),
        JFloat (double_of (12345 / 100000)), JFloat (double_of (2 / 10))]"

definition float_entry :: json where
  "float_entry = JObj
     [(''total'', JInt 4), (''rented'', JInt 0), (''available'', JInt 4),
      (''rental_rate'', JFloat 0), (''price_min'', JFloat (double_of (5 / 100))),
      (''price_median'', JFloat (double_of (123 / 1000))),
      (''price_max'', JFloat (double_of (2 / 10)))]"



section \<open>Equality of keys and value-keyed dicts\<close>

text \<open>
  On hashable values \<^verbatim>\<open>==\<close> is an equivalence relation, and it never relates a hashable
  value to a list or a dict. On a dict with hashable keys, lookup therefore cannot tell
  equal keys apart, and a store changes the lookup of the stored key's class only.
\<close>

lemma py_eq_refl: "hashable x \<Longrightarrow> py_eq x x"
  by (cases x) simp_all

lemma py_eq_sym: "hashable x \<Longrightarrow> py_eq x y = py_eq y x"
  by (cases x; cases y) (auto split: option.splits)

lemma py_eq_hashable: "py_eq x y \<Longrightarrow> hashable x \<Longrightarrow> hashable y"
  by (cases x; cases y) (auto split: option.splits)

lemma py_eq_trans: "hashable y \<Longrightarrow> py_eq x y \<Longrightarrow> py_eq y z \<Longrightarrow> py_eq x z"
  by (cases x; cases y; cases z) (auto split: option.splits if_splits)

lemma pd_get_cong:
  "keys_ok d \<Longrightarrow> hashable k \<Longrightarrow> py_eq k k' \<Longrightarrow> pd_get d k = pd_get d k'"
proof (induction d)
  case Nil
  then show ?case by simp
next
  case (Cons kv d)
  have "py_eq (fst kv) k = py_eq (fst kv) k'"
    using Cons.prems py_eq_trans [of k "fst kv" k'] py_eq_trans [of k' "fst kv" k]
      py_eq_sym [of k k'] py_eq_hashable [of k k']
    by blast
  with Cons show ?case by (simp add: keys_ok_def)
qed

lemma pd_get_set:
  "keys_ok d \<Longrightarrow> hashable k \<Longrightarrow> hashable k' \<Longrightarrow>
   pd_get (pd_set d k v) k' = (if py_eq k k' then Some v else pd_get d k')"
proof (induction d)
  case Nil
  then show ?case by simp
next
  case (Cons kv d)
  have hk: "hashable (fst kv)" and kd: "keys_ok d"
    using Cons.prems by (simp_all add: keys_ok_def)
  show ?case
  proof (cases "py_eq (fst kv) k")
    case True
    have "py_eq (fst kv) k' = py_eq k k'"
      using True hk Cons.prems py_eq_trans [of k "fst kv" k'] py_eq_trans [of "fst kv" k k']
        py_eq_sym [of "fst kv" k]
      by blast
    with True show ?thesis by simp
  next
    case False
    have "py_eq (fst kv) k' \<Longrightarrow> \<not> py_eq k k'"
      using False hk Cons.prems py_eq_trans [of k' "fst kv" k] py_eq_sym [of k k']
      by blast
    with False Cons.IH [OF kd Cons.prems(2,3)] show ?thesis by auto
  qed
qed

lemma keys_ok_pd_set: "keys_ok d \<Longrightarrow> hashable k \<Longrightarrow> keys_ok (pd_set d k v)"
  by (induction d) (auto simp: keys_ok_def)

lemma pd_get_Some_mem: "pd_get d k = Some v \<Longrightarrow> \<exists>k'. (k', v) \<in> set d \<and> py_eq k' k"
  by (induction d) (auto split: if_splits)

lemma pd_get_key: "(k, v) \<in> set d \<Longrightarrow> keys_ok d \<Longrightarrow> pd_get d k \<noteq> None"
  by (induction d) (auto simp: keys_ok_def py_eq_refl)

lemma pd_set_mem:
  "(k', v') \<in> set (pd_set d k v) \<Longrightarrow>
     (k', v') \<in> set d \<or> (v' = v \<and> (k' = k \<or> (py_eq k' k \<and> k' \<in> fst ` set d)))"
  by (induction d) (auto split: if_splits)

section \<open>The tallying loop\<close>

text \<open>
  A pass of the loop body that does not raise updates the three dicts independently.
  After the whole loop, started from any tallies with hashable keys, the entry under a
  key \<open>g\<close> has grown by what the records of category \<open>g\<close> contribute: their number,
  the number of rented ones, and their truthy prices in order.
\<close>

lemma tally_Inr:
  assumes "tally r s = Inr s'"
  shows "hashable (gpu_of r)"
    and "gpu_counts s' =
           pd_set (gpu_counts s) (gpu_of r) (pd_get_default (gpu_counts s) (gpu_of r) 0 + 1)"
    and "rented_counts s' =
           (if truthy (field r ''rented'' JNull)
            then pd_set (rented_counts s) (gpu_of r)
                   (pd_get_default (rented_counts s) (gpu_of r) 0 + 1)
            else rented_counts s)"
    and "price_by_gpu s' =
           price_step (gpu_of r) (field r ''dph_total'' JNull) (price_by_gpu s)"
  using assms
  by (cases r; simp add: gpu_of_def field_def price_step_def Let_def split: if_splits; fastforce)+

lemma tally_Inr_obj: "tally r s = Inr s' \<Longrightarrow> \<exists>kvs. r = JObj kvs"
  by (cases r) simp_all

lemma keys_ok_price_step: "keys_ok d \<Longrightarrow> hashable g \<Longrightarrow> keys_ok (price_step g p d)"
  by (simp add: price_step_def Let_def keys_ok_pd_set)

lemma pd_get_price_step:
  assumes "keys_ok d" "hashable gpu" "hashable g"
  shows "pd_get (price_step gpu p d) g =
     (if py_eq gpu g then Some (pd_get_default d g [] @ (if truthy p then [p] else []))
      else pd_get d g)"
proof -
  have c: "py_eq gpu g \<Longrightarrow> pd_get d gpu = pd_get d g"
    using assms pd_get_cong by blast
  show ?thesis
    using assms c
    by (auto simp: price_step_def Let_def pd_get_set keys_ok_pd_set pd_get_default_def
        py_eq_refl split: option.splits)
qed

lemma tally_all_keys_ok:
  "tally_all rs s = Inr s' \<Longrightarrow> keys_ok (gpu_counts s) \<Longrightarrow> keys_ok (rented_counts s) \<Longrightarrow>
   keys_ok (price_by_gpu s) \<Longrightarrow>
   keys_ok (gpu_counts s') \<and> keys_ok (rented_counts s') \<and> keys_ok (price_by_gpu s')"
proof (induction rs arbitrary: s)
  case Nil
  then show ?case by simp
next
  case (Cons r rs)
  from Cons.prems(1) obtain s1 where t: "tally r s = Inr s1" and a: "tally_all rs s1 = Inr s'"
    by (auto split: sum.splits)
  have "keys_ok (gpu_counts s1)" "keys_ok (rented_counts s1)" "keys_ok (price_by_gpu s1)"
    using tally_Inr [OF t] Cons.prems(2-4)
    by (simp_all add: keys_ok_pd_set keys_ok_price_step)
  with Cons.IH [OF a] show ?case by simp
qed

lemma tally_all_hashable:
  "tally_all rs s = Inr s' \<Longrightarrow> r \<in> set rs \<Longrightarrow> hashable (gpu_of r) \<and> (\<exists>kvs. r = JObj kvs)"
proof (induction rs arbitrary: s)
  case Nil
  then show ?case by simp
next
  case (Cons x rs)
  from Cons.prems(1) obtain s1 where t: "tally x s = Inr s1" and a: "tally_all rs s1 = Inr s'"
    by (auto split: sum.splits)
  show ?case
    using Cons.prems(2) Cons.IH [OF a] tally_Inr(1) [OF t] tally_Inr_obj [OF t] by auto
qed

lemma tally_all_counts:
  "tally_all rs s = Inr s' \<Longrightarrow> keys_ok (gpu_counts s) \<Longrightarrow> hashable g \<Longrightarrow>
   pd_get (gpu_counts s') g =
     (if category g rs = [] then pd_get (gpu_counts s) g
      else Some (pd_get_default (gpu_counts s) g 0 + int (length (category g rs))))"
proof (induction rs arbitrary: s)
  case Nil
  then show ?case by (simp add: category_def)
next
  case (Cons r rs)
  from Cons.prems(1) obtain s1 where t: "tally r s = Inr s1" and a: "tally_all rs s1 = Inr s'"
    by (auto split: sum.splits)
  note st = tally_Inr [OF t]
  have k1: "keys_ok (gpu_counts s1)"
    using st Cons.prems(2) by (simp add: keys_ok_pd_set)
  have c: "py_eq (gpu_of r) g \<Longrightarrow> pd_get (gpu_counts s) (gpu_of r) = pd_get (gpu_counts s) g"
    using pd_get_cong Cons.prems(2) st(1) by blast
  have g1: "pd_get (gpu_counts s1) g =
      (if py_eq (gpu_of r) g then Some (pd_get_default (gpu_counts s) g 0 + 1)
       else pd_get (gpu_counts s) g)"
    using c by (simp add: st(2) pd_get_set Cons.prems st(1) pd_get_default_def)
  show ?case
    using Cons.IH [OF a k1 Cons.prems(3)] g1
    by (auto simp: category_def pd_get_default_def)
qed

lemma tally_all_rented:
  "tally_all rs s = Inr s' \<Longrightarrow> keys_ok (rented_counts s) \<Longrightarrow> hashable g \<Longrightarrow>
   pd_get_default (rented_counts s') g 0 =
     pd_get_default (rented_counts s) g 0 + int (length (cat_rented g rs))"
proof (induction rs arbitrary: s)
  case Nil
  then show ?case by (simp add: cat_rented_def category_def)
next
  case (Cons r rs)
  from Cons.prems(1) obtain s1 where t: "tally r s = Inr s1" and a: "tally_all rs s1 = Inr s'"
    by (auto split: sum.splits)
  note st = tally_Inr [OF t]
  have k1: "keys_ok (rented_counts s1)"
    using st Cons.prems(2) by (simp add: keys_ok_pd_set)
  have c: "py_eq (gpu_of r) g \<Longrightarrow> pd_get (rented_counts s) (gpu_of r) = pd_get (rented_counts s) g"
    using pd_get_cong Cons.prems(2) st(1) by blast
  have g1: "pd_get_default (rented_counts s1) g 0 =
      pd_get_default (rented_counts s) g 0 +
        (if py_eq (gpu_of r) g \<and> truthy (field r ''rented'' JNull) then 1 else 0)"
    using c by (simp add: st(3) pd_get_set Cons.prems st(1) pd_get_default_def)
  show ?case
    using Cons.IH [OF a k1 Cons.prems(3)] g1
    by (auto simp: cat_rented_def category_def)
qed

lemma tally_all_prices:
  "tally_all rs s = Inr s' \<Longrightarrow> keys_ok (price_by_gpu s) \<Longrightarrow> hashable g \<Longrightarrow>
   pd_get (price_by_gpu s') g =
     (if category g rs = [] then pd_get (price_by_gpu s) g
      else Some (pd_get_default (price_by_gpu s) g [] @ cat_prices g rs))"
proof (induction rs arbitrary: s)
  case Nil
  then show ?case by (simp add: category_def)
next
  case (Cons r rs)
  from Cons.prems(1) obtain s1 where t: "tally r s = Inr s1" and a: "tally_all rs s1 = Inr s'"
    by (auto split: sum.splits)
  note st = tally_Inr [OF t]
  have k1: "keys_ok (price_by_gpu s1)"
    using st Cons.prems(2) by (simp add: keys_ok_price_step)
  have g1: "pd_get (price_by_gpu s1) g =
      (if py_eq (gpu_of r) g
       then Some (pd_get_default (price_by_gpu s) g []
                    @ (if truthy (field r ''dph_total'' JNull) then [field r ''dph_total'' JNull] else []))
       else pd_get (price_by_gpu s) g)"
    by (simp add: st(4) pd_get_price_step Cons.prems st(1))
  show ?case
    using Cons.IH [OF a k1 Cons.prems(3)] g1
    by (auto simp: cat_prices_def category_def pd_get_default_def)
qed

section \<open>The summarising loop and the reporter as a whole\<close>

text \<open>
  The second loop stores, under every key of \<^verbatim>\<open>gpu_counts\<close>, the entry computed from the
  tallies of that key. Put together: every entry of a result of \<^verbatim>\<open>get_summary_stats\<close> is
  the entry of a category of the latest batch, computed from that category's records,
  and every record of the latest batch has its category in the result.
\<close>

lemma right_entry_cong:
  assumes "keys_ok (gpu_counts s)" "keys_ok (rented_counts s)" "keys_ok (price_by_gpu s)"
    and "hashable g" "py_eq g g'"
  shows "right_entry s g e = right_entry s g' e"
  using assms pd_get_cong [of "gpu_counts s" g g'] pd_get_cong [of "rented_counts s" g g']
    pd_get_cong [of "price_by_gpu s" g g']
  by (simp add: right_entry_def pd_get_default_def)

lemma summarise_entries:
  assumes "keys_ok (gpu_counts s)" "keys_ok (rented_counts s)" "keys_ok (price_by_gpu s)"
  shows "summarise s gpus stats0 = Inr stats \<Longrightarrow> list_all hashable gpus \<Longrightarrow>
    (\<forall>(g, e) \<in> set stats0. hashable g \<and> right_entry s g e) \<Longrightarrow>
    (\<forall>(g, e) \<in> set stats. hashable g \<and> right_entry s g e)"
proof (induction gpus arbitrary: stats0)
  case Nil
  then show ?case by simp
next
  case (Cons gpu gpus)
  from Cons.prems(1) obtain n prices entry where
    n: "pd_get (gpu_counts s) gpu = Some n" and
    p: "py_sorted (pd_get_default (price_by_gpu s) gpu []) = Inr prices" and
    e: "gpu_entry n (pd_get_default (rented_counts s) gpu 0) prices = Inr entry" and
    r: "summarise s gpus (pd_set stats0 gpu entry) = Inr stats"
    by (auto simp: Let_def split: option.splits sum.splits)
  have hg: "hashable gpu" and hr: "list_all hashable gpus"
    using Cons.prems(2) by simp_all
  have re: "right_entry s gpu entry"
    using n p e by (auto simp: right_entry_def)
  have "hashable g \<and> right_entry s g e'" if m: "(g, e') \<in> set (pd_set stats0 gpu entry)" for g e'
  proof -
    from pd_set_mem [OF m] consider "(g, e') \<in> set stats0" | "e' = entry" "g = gpu"
      | "e' = entry" "py_eq g gpu" "g \<in> fst ` set stats0"
      by blast
    then show ?thesis
    proof cases
      case 1
      with Cons.prems(3) show ?thesis by auto
    next
      case 2
      with re hg show ?thesis by simp
    next
      case 3
      then have h: "hashable g" using Cons.prems(3) by auto
      with 3 re right_entry_cong [OF assms h 3(2)] show ?thesis by simp
    qed
  qed
  then have "\<forall>(g, e) \<in> set (pd_set stats0 gpu entry). hashable g \<and> right_entry s g e"
    by auto
  from Cons.IH [OF r hr this] show ?case .
qed

lemma keys_ok_iff: "keys_ok d = (\<forall>(g, e) \<in> set d. hashable g)"
  by (auto simp: keys_ok_def list_all_iff)

lemma summarise_covers:
  "summarise s gpus stats0 = Inr stats \<Longrightarrow> keys_ok stats0 \<Longrightarrow> list_all hashable gpus \<Longrightarrow>
   hashable g \<Longrightarrow> pd_get stats0 g \<noteq> None \<or> (\<exists>k \<in> set gpus. py_eq k g) \<Longrightarrow>
   pd_get stats g \<noteq> None"
proof (induction gpus arbitrary: stats0)
  case Nil
  then show ?case by simp
next
  case (Cons gpu gpus)
  from Cons.prems(1) obtain entry where
    r: "summarise s gpus (pd_set stats0 gpu entry) = Inr stats"
    by (auto simp: Let_def split: option.splits sum.splits)
  have hg: "hashable gpu" and hr: "list_all hashable gpus"
    using Cons.prems(3) by simp_all
  have k: "keys_ok (pd_set stats0 gpu entry)"
    using Cons.prems(2) hg by (simp add: keys_ok_pd_set)
  have "pd_get (pd_set stats0 gpu entry) g \<noteq> None \<or> (\<exists>k \<in> set gpus. py_eq k g)"
    using Cons.prems(5) by (auto simp: pd_get_set Cons.prems(2,4) hg)
  from Cons.IH [OF r k hr Cons.prems(4) this] show ?case .
qed

lemma py_getitem_field: "py_getitem r k = Inr v \<Longrightarrow> field r k d = v"
  by (cases r) (auto simp: field_def dict_get_def split: option.splits)

lemma latest_batch_filter:
  "latest_batch ts rs = Inr b \<Longrightarrow> b = filter (\<lambda>r. py_eq (field r ''timestamp'' JNull) ts) rs"
proof (induction rs arbitrary: b)
  case Nil
  then show ?case by simp
next
  case (Cons r rs)
  from Cons.prems obtain t b' where t: "py_getitem r ''timestamp'' = Inr t"
    and b': "latest_batch ts rs = Inr b'" and b: "b = (if py_eq t ts then r # b' else b')"
    by (auto split: sum.splits)
  show ?case
    using Cons.IH [OF b'] b py_getitem_field [OF t] by simp
qed

lemma get_summary_stats_unfold:
  assumes "get_summary_stats records = Inr stats" "records \<noteq> []"
  shows "\<exists>s. tally_all (batch_of records) \<lparr>gpu_counts = [], rented_counts = [], price_by_gpu = []\<rparr> = Inr s
           \<and> summarise s (map fst (gpu_counts s)) [] = Inr stats"
proof -
  from assms obtain ts b s where ts: "py_getitem (last records) ''timestamp'' = Inr ts"
    and b: "latest_batch ts records = Inr b"
    and s: "tally_all b \<lparr>gpu_counts = [], rented_counts = [], price_by_gpu = []\<rparr> = Inr s"
    and r: "summarise s (map fst (gpu_counts s)) [] = Inr stats"
    by (auto simp: get_summary_stats_def split: sum.splits)
  have "b = batch_of records"
    using latest_batch_filter [OF b] py_getitem_field [OF ts] by (simp add: batch_of_def)
  with s r show ?thesis by auto
qed

lemma get_summary_stats_entries:
  assumes ok: "get_summary_stats records = Inr stats" and m: "(g, entry) \<in> set stats"
  shows "category g (batch_of records) \<noteq> []"
    and "\<exists>prices. py_sorted (cat_prices g (batch_of records)) = Inr prices \<and>
           gpu_entry (int (length (category g (batch_of records))))
             (int (length (cat_rented g (batch_of records)))) prices = Inr entry"
    and "hashable g"
proof -
  have ne: "records \<noteq> []"
    using ok m by (auto simp: get_summary_stats_def)
  let ?s0 = "\<lparr>gpu_counts = [], rented_counts = [], price_by_gpu = []\<rparr>"
  let ?b = "batch_of records"
  from get_summary_stats_unfold [OF ok ne] obtain s where
    s: "tally_all ?b ?s0 = Inr s" and r: "summarise s (map fst (gpu_counts s)) [] = Inr stats"
    by blast
  have k: "keys_ok (gpu_counts s)" "keys_ok (rented_counts s)" "keys_ok (price_by_gpu s)"
    using tally_all_keys_ok [OF s] by (simp_all add: keys_ok_def)
  have hk: "list_all hashable (map fst (gpu_counts s))"
    using k(1) by (simp add: keys_ok_def list_all_iff)
  have "\<forall>(g, e) \<in> set stats. hashable g \<and> right_entry s g e"
    using summarise_entries [OF k r hk] by simp
  with m have h: "hashable g" and re: "right_entry s g entry" by auto
  from re obtain n prices where n: "pd_get (gpu_counts s) g = Some n"
    and p: "py_sorted (pd_get_default (price_by_gpu s) g []) = Inr prices"
    and e: "gpu_entry n (pd_get_default (rented_counts s) g 0) prices = Inr entry"
    by (auto simp: right_entry_def)
  have c: "pd_get (gpu_counts s) g =
      (if category g ?b = [] then None else Some (int (length (category g ?b))))"
    using tally_all_counts [OF s _ h] by (simp add: keys_ok_def pd_get_default_def)
  show ne': "category g ?b \<noteq> []" using c n by auto
  have n': "n = int (length (category g ?b))" using c n ne' by simp
  have rc: "pd_get_default (rented_counts s) g 0 = int (length (cat_rented g ?b))"
    using tally_all_rented [OF s _ h] by (simp add: keys_ok_def pd_get_default_def)
  have pr: "pd_get_default (price_by_gpu s) g [] = cat_prices g ?b"
    using tally_all_prices [OF s _ h] ne' by (simp add: keys_ok_def pd_get_default_def)
  show "\<exists>prices. py_sorted (cat_prices g ?b) = Inr prices \<and>
           gpu_entry (int (length (category g ?b))) (int (length (cat_rented g ?b))) prices = Inr entry"
    using p e n' rc pr by auto
  show "hashable g" by (rule h)
qed

lemma get_summary_stats_covers:
  assumes ok: "get_summary_stats records = Inr stats" and m: "r \<in> set (batch_of records)"
  shows "pd_get stats (gpu_of r) \<noteq> None"
proof -
  have ne: "records \<noteq> []"
    using m by (auto simp: batch_of_def)
  let ?s0 = "\<lparr>gpu_counts = [], rented_counts = [], price_by_gpu = []\<rparr>"
  let ?b = "batch_of records"
  from get_summary_stats_unfold [OF ok ne] obtain s where
    s: "tally_all ?b ?s0 = Inr s" and su: "summarise s (map fst (gpu_counts s)) [] = Inr stats"
    by blast
  have h: "hashable (gpu_of r)"
    using tally_all_hashable [OF s m] by simp
  have k: "keys_ok (gpu_counts s)"
    using tally_all_keys_ok [OF s] by (simp add: keys_ok_def)
  have hk: "list_all hashable (map fst (gpu_counts s))"
    using k by (simp add: keys_ok_def list_all_iff)
  have "r \<in> set (category (gpu_of r) ?b)"
    using m h by (simp add: category_def py_eq_refl)
  then have "category (gpu_of r) ?b \<noteq> []" by auto
  then have "pd_get (gpu_counts s) (gpu_of r) \<noteq> None"
    using tally_all_counts [OF s _ h] by (simp add: keys_ok_def)
  then obtain n where "pd_get (gpu_counts s) (gpu_of r) = Some n" by auto
  from pd_get_Some_mem [OF this] have "\<exists>k \<in> set (map fst (gpu_counts s)). py_eq k (gpu_of r)"
    by force
  then show ?thesis
    using summarise_covers [OF su _ hk h] by (simp add: keys_ok_def)
qed

section \<open>Rounding to a double\<close>

text \<open>
  \<^const>\<open>floor_log2\<close> finds the binary exponent, so the spacing that \<^const>\<open>double_of\<close>
  rounds to is at most \<open>2 ^ - 52\<close> times the number, or the subnormal spacing: rounding
  to a double moves a number by at most \<open>2 ^ - 53\<close> of its size plus \<open>2 ^ - 1075\<close>. The
  quotient of two counts, the smaller over the larger, is therefore within the double
  range, which \<^const>\<open>beyond_double\<close> tests by the exponent.
\<close>

lemma pow2_powi: "pow2 e = power_int 2 e"
  by (simp add: pow2_def power_int_def power_inverse [symmetric] inverse_eq_divide power_one_over)

lemma pow2_pos: "0 < pow2 e"
  by (simp add: pow2_powi)

lemma pow2_add: "pow2 (a + b) = pow2 a * pow2 b"
  by (simp add: pow2_powi power_int_add)

lemma pow2_Suc: "pow2 (e + 1) = 2 * pow2 e"
  using pow2_add [of e 1] by (simp add: pow2_def)

lemma pow2_pred: "2 * pow2 (e - 1) = pow2 e"
  using pow2_Suc [of "e - 1"] by simp

lemma pow2_mono: "a \<le> b \<Longrightarrow> pow2 a \<le> pow2 b"
  by (simp add: pow2_powi power_int_increasing)

lemma log2_down_spec:
  "1 \<le> x \<Longrightarrow> 0 \<le> log2_down x \<and> pow2 (log2_down x) \<le> x \<and> x < 2 * pow2 (log2_down x)"
proof (induction x rule: log2_down.induct)
  case (1 x)
  show ?case
  proof (cases "x < 2")
    case True
    with "1.prems" show ?thesis
      by (simp add: log2_down.simps [of x] pow2_def)
  next
    case False
    then have "1 \<le> x / 2" by simp
    from "1.IH" [OF False this] False show ?thesis
      by (simp add: log2_down.simps [of x] pow2_Suc)
  qed
qed

lemma log2_up_spec:
  "0 < x \<Longrightarrow> x < 1 \<Longrightarrow>
   log2_up x < 0 \<and> pow2 (log2_up x) \<le> x \<and> x < 2 * pow2 (log2_up x)"
proof (induction x rule: log2_up.induct)
  case (1 x)
  have c: "\<not> (x \<le> 0 \<or> 1 \<le> x)" using "1.prems" by simp
  show ?case
  proof (cases "x * 2 < 1")
    case True
    from "1.IH" [OF c _ True] "1.prems" pow2_pred [of "log2_up (x * 2)"] show ?thesis
      by (simp add: log2_up.simps [of x])
  next
    case False
    then have "log2_up (x * 2) = 0"
      by (simp add: log2_up.simps [of "x * 2"])
    with False "1.prems" show ?thesis
      by (simp add: log2_up.simps [of x] pow2_def)
  qed
qed

lemma floor_log2_spec:
  "0 < x \<Longrightarrow> pow2 (floor_log2 x) \<le> x \<and> x < 2 * pow2 (floor_log2 x)"
  using log2_down_spec [of x] log2_up_spec [of x]
  by (cases "1 \<le> x") (simp_all add: floor_log2_def)

lemma round_half_even_near: "\<bar>of_int (round_half_even x) - x\<bar> \<le> 1 / 2"
proof -
  have "of_int \<lfloor>x\<rfloor> \<le> x" "x < of_int \<lfloor>x\<rfloor> + 1"
    by linarith+
  then show ?thesis
    by (auto simp: round_half_even_def Let_def)
qed

lemma double_of_near:
  "\<bar>double_of x - x\<bar> \<le> \<bar>x\<bar> * pow2 (- 53) + pow2 (- 1075)"
proof (cases "x = 0")
  case True
  then show ?thesis using pow2_pos [of "- 1075"] by (simp add: double_of_def)
next
  case False
  define e where "e = max (floor_log2 \<bar>x\<bar>) (- 1022)"
  define u where "u = pow2 (e - 52)"
  have u: "0 < u" by (simp add: u_def pow2_pos)
  have d: "double_of x = of_int (round_half_even (x / u)) * u"
    using False by (simp add: double_of_def Let_def e_def u_def)
  have eq: "of_int (round_half_even (x / u)) * u - x
          = (of_int (round_half_even (x / u)) - x / u) * u"
    using u by (simp add: left_diff_distrib)
  have "\<bar>of_int (round_half_even (x / u)) * u - x\<bar>
          = \<bar>(of_int (round_half_even (x / u)) - x / u) * u\<bar>"
    by (simp only: eq)
  also have "\<dots> = \<bar>of_int (round_half_even (x / u)) - x / u\<bar> * u"
    using u by (simp add: abs_mult)
  also have "\<dots> \<le> 1 / 2 * u"
    using round_half_even_near [of "x / u"] u by (intro mult_right_mono) simp_all
  also have "\<dots> = pow2 (e - 53)"
    using pow2_pred [of "e - 52"] by (simp add: u_def)
  finally have b: "\<bar>double_of x - x\<bar> \<le> pow2 (e - 53)"
    by (simp add: d)
  have "pow2 (e - 53) \<le> \<bar>x\<bar> * pow2 (- 53) + pow2 (- 1075)"
  proof (cases "- 1022 \<le> floor_log2 \<bar>x\<bar>")
    case True
    then have "e = floor_log2 \<bar>x\<bar>" by (simp add: e_def)
    then have "pow2 (e - 53) = pow2 (floor_log2 \<bar>x\<bar>) * pow2 (- 53)"
      using pow2_add [of "floor_log2 \<bar>x\<bar>" "- 53"] by simp
    also have "\<dots> \<le> \<bar>x\<bar> * pow2 (- 53)"
      using floor_log2_spec [of "\<bar>x\<bar>"] False pow2_pos [of "- 53"]
      by (intro mult_right_mono) simp_all
    finally show ?thesis using pow2_pos [of "- 1075"] by simp
  next
    case False
    then have "e = - 1022" by (simp add: e_def)
    then have "pow2 (e - 53) = pow2 (- 1075)" by simp
    then show ?thesis using pow2_pos [of "- 53"] by simp
  qed
  with b show ?thesis by simp
qed

lemma pow2_subnormal: "pow2 (- 1075) \<le> pow2 (- 53)"
  by (rule pow2_mono) simp

lemma pow2_53: "pow2 (- 53) \<le> 1 / 10 ^ 15"
  by (simp add: pow2_def)

lemma double_of_near_bound:
  assumes "\<bar>x\<bar> \<le> b"
  shows "\<bar>double_of x - x\<bar> \<le> (b + 1) * pow2 (- 53)"
proof -
  have "\<bar>x\<bar> * pow2 (- 53) \<le> b * pow2 (- 53)"
    using assms pow2_pos [of "- 53"] by (intro mult_right_mono) simp_all
  with double_of_near [of x] pow2_subnormal show ?thesis
    by (simp add: distrib_right)
qed

lemma beyond_double_iff: "beyond_double x = (pow2 1024 \<le> \<bar>x\<bar>)"
proof (cases "x = 0")
  case True
  then show ?thesis
    using pow2_pos [of 1024] by (simp add: beyond_double_def)
next
  case False
  then have s: "pow2 (floor_log2 \<bar>x\<bar>) \<le> \<bar>x\<bar>" "\<bar>x\<bar> < 2 * pow2 (floor_log2 \<bar>x\<bar>)"
    using floor_log2_spec [of "\<bar>x\<bar>"] by simp_all
  show ?thesis
  proof (cases "1024 \<le> floor_log2 \<bar>x\<bar>")
    case True
    with s(1) pow2_mono [OF True] False show ?thesis
      by (simp add: beyond_double_def)
  next
    case f: False
    then have "floor_log2 \<bar>x\<bar> + 1 \<le> 1024"
      by simp
    from pow2_mono [OF this] s(2) have "\<bar>x\<bar> < pow2 1024"
      by (simp add: pow2_Suc)
    with f show ?thesis
      by (simp add: beyond_double_def)
  qed
qed

lemma not_beyond_double: "\<bar>x\<bar> \<le> 2 \<Longrightarrow> \<not> beyond_double x"
proof -
  assume a: "\<bar>x\<bar> \<le> 2"
  have "pow2 2 \<le> pow2 1024"
    by (rule pow2_mono) simp
  then have "4 \<le> pow2 1024"
    by (simp add: pow2_def)
  with a show ?thesis
    by (simp add: beyond_double_iff)
qed

lemma py_truediv_ok:
  assumes "0 \<le> a" "a \<le> b" "0 < b"
  shows "py_truediv a b = Inr (double_of (of_int a / of_int b))"
proof -
  let ?x = "of_int a / of_int b :: rat"
  have x: "\<bar>?x\<bar> \<le> 1"
    using assms by simp
  from double_of_near_bound [OF x] pow2_53
  have "\<bar>double_of ?x - ?x\<bar> \<le> 1"
    by simp
  with x have "\<bar>double_of ?x\<bar> \<le> 2"
    by linarith
  then have "\<not> beyond_double (double_of ?x)"
    by (rule not_beyond_double)
  with assms show ?thesis
    by (simp add: py_truediv_def Let_def)
qed


section \<open>Extremes and the entry of one GPU\<close>

text \<open>
  \<^verbatim>\<open>min\<close> and \<^verbatim>\<open>max\<close> return a least and a greatest element of a non-empty list;
  \<^verbatim>\<open>round\<close> accepts exactly the numbers. An entry
  that was computed without error has the seven fields of lines 240 to 246, and its
  prices, if any, were all numbers.
\<close>

lemma py_min_mem: "xs \<noteq> [] \<Longrightarrow> py_min xs \<in> set xs"
  by (induction xs rule: py_min.induct) (auto simp: Let_def)

lemma py_max_mem: "xs \<noteq> [] \<Longrightarrow> py_max xs \<in> set xs"
  by (induction xs rule: py_max.induct) (auto simp: Let_def)

lemma py_min_le: "x \<in> set xs \<Longrightarrow> num_key (py_min xs) \<le> num_key x"
  by (induction xs rule: py_min.induct) (auto simp: Let_def)

lemma py_max_ge: "x \<in> set xs \<Longrightarrow> num_key x \<le> num_key (py_max xs)"
  by (induction xs rule: py_max.induct) (auto simp: Let_def)

lemma py_round_num: "is_num x \<Longrightarrow> \<exists>v. py_round x n = Inr v"
  by (cases x) (simp_all add: is_num_def)

lemma py_round_Inr_num: "py_round x n = Inr v \<Longrightarrow> is_num x"
  by (cases x) (auto simp: is_num_def)

lemma gpu_entry_fields:
  assumes "gpu_entry n rented prices = Inr entry"
  shows "py_getitem entry ''rental_rate'' =
           (if n > 0
            then py_round (JFloat (float_mul (double_of (of_int rented / of_int n)) 100)) 1
            else Inr (JInt 0))"
    and "py_getitem entry ''price_min'' =
           (if prices \<noteq> [] then py_round (py_min prices) 3 else Inr JNull)"
    and "py_getitem entry ''price_median'' =
           (if prices \<noteq> [] then py_round (prices ! (length prices div 2)) 3 else Inr JNull)"
    and "py_getitem entry ''price_max'' =
           (if prices \<noteq> [] then py_round (py_max prices) 3 else Inr JNull)"
    and "py_getitem entry ''total'' = Inr (JInt n)"
    and "py_getitem entry ''rented'' = Inr (JInt rented)"
    and "py_getitem entry ''available'' = Inr (JInt (n - rented))"
  using assms
  by (auto simp: gpu_entry_def py_truediv_def Let_def split: sum.splits if_splits)

lemma gpu_entry_rounds:
  assumes "gpu_entry n rented prices = Inr entry" "prices \<noteq> []"
  shows "\<exists>lo mid hi. py_round (py_min prices) 3 = Inr lo \<and>
           py_round (prices ! (length prices div 2)) 3 = Inr mid \<and>
           py_round (py_max prices) 3 = Inr hi"
  using assms
  by (auto simp: gpu_entry_def split: sum.splits if_splits)

lemma gpu_entry_prices_num:
  assumes s: "py_sorted ps = Inr prices" and e: "gpu_entry n rented prices = Inr entry"
  shows "list_all is_num ps \<and> prices = sort_key num_key ps"
proof (cases "list_all is_num ps")
  case True
  with s show ?thesis by (simp add: py_sorted_def)
next
  case False
  with s have l: "length ps \<le> 1" and p: "prices = ps"
    by (auto simp: py_sorted_def split: if_splits)
  from False have "ps \<noteq> []" by auto
  with l obtain x where x: "ps = [x]" by (cases ps) auto
  with gpu_entry_rounds [OF e] p have "\<exists>v. py_round x 3 = Inr v"
    by auto
  then have "is_num x" using py_round_Inr_num by blast
  with False x show ?thesis by simp
qed

section \<open>The reporter succeeds on well-formed records\<close>

text \<open>
  No branch of the reporter raises on a dataset of well-formed records, so the
  properties of its results are not vacuous.
\<close>

lemma well_formed_obj: "well_formed r \<Longrightarrow> \<exists>kvs. r = JObj kvs"
  by (cases r) (simp_all add: well_formed_def)

lemma latest_batch_ok:
  "list_all well_formed rs \<Longrightarrow> \<exists>b. latest_batch ts rs = Inr b"
  by (induction rs) (auto simp: well_formed_def split: sum.splits)

lemma tally_ok: "well_formed r \<Longrightarrow> \<exists>s'. tally r s = Inr s'"
  by (cases r) (auto simp: well_formed_def gpu_of_def field_def Let_def)

lemma tally_all_ok: "list_all well_formed rs \<Longrightarrow> \<exists>s'. tally_all rs s = Inr s'"
proof (induction rs arbitrary: s)
  case Nil
  then show ?case by simp
next
  case (Cons r rs)
  then obtain s1 where "tally r s = Inr s1" using tally_ok [of r s] by auto
  with Cons show ?case by simp
qed

lemma gpu_entry_ok:
  assumes "list_all is_num prices" and "0 \<le> rented" and "rented \<le> n"
  shows "\<exists>e. gpu_entry n rented prices = Inr e"
proof -
  have r: "\<exists>v. (if n > 0
            then (case py_truediv rented n of
                    Inl e \<Rightarrow> Inl e
                  | Inr q \<Rightarrow> py_round (JFloat (float_mul q 100)) 1)
            else Inr (JInt 0)) = Inr v"
    using py_truediv_ok [OF assms(2,3)] by simp
  have "prices \<noteq> [] \<Longrightarrow> is_num (py_min prices) \<and> is_num (py_max prices)
      \<and> is_num (prices ! (length prices div 2))"
    using assms py_min_mem [of prices] py_max_mem [of prices]
    by (auto simp: list_all_iff)
  then have p: "prices \<noteq> [] \<Longrightarrow> (\<exists>v. py_round (py_min prices) 3 = Inr v) \<and>
      (\<exists>v. py_round (py_max prices) 3 = Inr v) \<and>
      (\<exists>v. py_round (prices ! (length prices div 2)) 3 = Inr v)"
    using py_round_num by blast
  show ?thesis
  proof (cases "prices = []")
    case True
    with r show ?thesis by (auto simp: gpu_entry_def)
  next
    case False
    from p [OF False] r show ?thesis
      unfolding gpu_entry_def by (auto simp: False)
  qed
qed

lemma summarise_ok:
  "(\<forall>gpu \<in> set gpus.
       (\<exists>n. pd_get (gpu_counts s) gpu = Some n \<and>
            0 \<le> pd_get_default (rented_counts s) gpu 0 \<and>
            pd_get_default (rented_counts s) gpu 0 \<le> n) \<and>
       list_all is_num (pd_get_default (price_by_gpu s) gpu [])) \<Longrightarrow>
   \<exists>stats. summarise s gpus stats0 = Inr stats"
proof (induction gpus arbitrary: stats0)
  case Nil
  then show ?case by simp
next
  case (Cons gpu gpus)
  let ?ps = "pd_get_default (price_by_gpu s) gpu []"
  from Cons.prems obtain n where n: "pd_get (gpu_counts s) gpu = Some n"
    and r: "0 \<le> pd_get_default (rented_counts s) gpu 0"
      "pd_get_default (rented_counts s) gpu 0 \<le> n"
    by auto
  from Cons.prems have num: "list_all is_num ?ps" by simp
  then have so: "py_sorted ?ps = Inr (sort_key num_key ?ps)"
    by (simp add: py_sorted_def)
  have "list_all is_num (sort_key num_key ?ps)"
    using num by (simp add: list_all_iff)
  from gpu_entry_ok [OF this r] obtain e where
    e: "gpu_entry n (pd_get_default (rented_counts s) gpu 0) (sort_key num_key ?ps) = Inr e"
    by blast
  from Cons.IH [of "pd_set stats0 gpu e"] Cons.prems obtain stats where
    "summarise s gpus (pd_set stats0 gpu e) = Inr stats" by auto
  with n so e show ?case by (simp add: Let_def)
qed

lemma cat_prices_num:
  "list_all well_formed b \<Longrightarrow> list_all is_num (cat_prices g b)"
  by (auto simp: cat_prices_def category_def list_all_iff well_formed_def split: if_splits)

lemma get_summary_stats_ok:
  assumes wf: "list_all well_formed records"
  shows "\<exists>stats. get_summary_stats records = Inr stats"
proof (cases "records = []")
  case True
  then show ?thesis by (simp add: get_summary_stats_def)
next
  case False
  let ?s0 = "\<lparr>gpu_counts = [], rented_counts = [], price_by_gpu = []\<rparr>"
  from False wf have "well_formed (last records)"
    by (simp add: list_all_iff)
  then obtain ts where ts: "py_getitem (last records) ''timestamp'' = Inr ts"
    by (auto simp: well_formed_def split: sum.splits)
  from latest_batch_ok [OF wf] obtain b where b: "latest_batch ts records = Inr b" by blast
  have wb: "list_all well_formed b"
    using latest_batch_filter [OF b] wf by (simp add: list_all_iff)
  from tally_all_ok [OF wb] obtain s where s: "tally_all b ?s0 = Inr s" by blast
  have k: "keys_ok (gpu_counts s)"
    using tally_all_keys_ok [OF s] by (simp add: keys_ok_def)
  have "(\<exists>n. pd_get (gpu_counts s) gpu = Some n \<and>
            0 \<le> pd_get_default (rented_counts s) gpu 0 \<and>
            pd_get_default (rented_counts s) gpu 0 \<le> n) \<and>
       list_all is_num (pd_get_default (price_by_gpu s) gpu [])"
    if m: "gpu \<in> set (map fst (gpu_counts s))" for gpu
  proof -
    from m k have h: "hashable gpu" by (auto simp: keys_ok_def list_all_iff)
    from m obtain v where "(gpu, v) \<in> set (gpu_counts s)" by auto
    from pd_get_key [OF this k] have 0: "pd_get (gpu_counts s) gpu \<noteq> None" .
    then have "pd_get (gpu_counts s) gpu = Some (int (length (category gpu b)))"
      using tally_all_counts [OF s _ h]
      by (simp add: keys_ok_def pd_get_default_def split: if_splits)
    moreover have "pd_get_default (rented_counts s) gpu 0 = int (length (cat_rented gpu b))"
      using tally_all_rented [OF s _ h] by (simp add: keys_ok_def pd_get_default_def)
    moreover have "length (cat_rented gpu b) \<le> length (category gpu b)"
      by (simp add: cat_rented_def)
    ultimately have 1: "\<exists>n. pd_get (gpu_counts s) gpu = Some n \<and>
            0 \<le> pd_get_default (rented_counts s) gpu 0 \<and>
            pd_get_default (rented_counts s) gpu 0 \<le> n"
      by simp
    have "pd_get_default (price_by_gpu s) gpu [] = [] \<or>
          pd_get_default (price_by_gpu s) gpu [] = cat_prices gpu b"
      using tally_all_prices [OF s _ h] by (simp add: keys_ok_def pd_get_default_def)
    with cat_prices_num [OF wb, of gpu] 1 show ?thesis by auto
  qed
  then have "\<exists>stats. summarise s (map fst (gpu_counts s)) [] = Inr stats"
    using summarise_ok by blast
  with False ts b s show ?thesis
    by (simp add: get_summary_stats_def)
qed

section \<open>Price statistics of a reported entry\<close>

text \<open>
  The three price fields of a reported entry in terms of the category's prices, and the
  place of the element at index \<open>n div 2\<close> in their sorted order.
\<close>

lemma median_general:
  assumes ok: "get_summary_stats records = Inr stats" and m: "(g, entry) \<in> set stats"
    and ps: "ps = cat_prices g (batch_of records)" and ne: "ps \<noteq> []"
  shows "list_all is_num ps"
    and "py_getitem entry ''price_min'' = py_round (py_min (sort_key num_key ps)) 3"
    and "py_getitem entry ''price_median'' = py_round (sort_key num_key ps ! (length ps div 2)) 3"
    and "py_getitem entry ''price_max'' = py_round (py_max (sort_key num_key ps)) 3"
    and "\<exists>lo mid hi. py_round (py_min (sort_key num_key ps)) 3 = Inr lo \<and>
           py_round (sort_key num_key ps ! (length ps div 2)) 3 = Inr mid \<and>
           py_round (py_max (sort_key num_key ps)) 3 = Inr hi"
proof -
  from get_summary_stats_entries(2) [OF ok m] ps obtain prices n k where
    s: "py_sorted ps = Inr prices" and e: "gpu_entry n k prices = Inr entry"
    by auto
  from gpu_entry_prices_num [OF s e] have num: "list_all is_num ps"
    and p: "prices = sort_key num_key ps" by simp_all
  have pne: "prices \<noteq> []" using p ne by (metis length_sort list.size(3) length_0_conv)
  have l: "length prices = length ps" using p by simp
  show "list_all is_num ps" by (rule num)
  show "py_getitem entry ''price_min'' = py_round (py_min (sort_key num_key ps)) 3"
    using gpu_entry_fields(2) [OF e] pne p by simp
  show "py_getitem entry ''price_median'' = py_round (sort_key num_key ps ! (length ps div 2)) 3"
    using gpu_entry_fields(3) [OF e] pne p l by simp
  show "py_getitem entry ''price_max'' = py_round (py_max (sort_key num_key ps)) 3"
    using gpu_entry_fields(4) [OF e] pne p by simp
  show "\<exists>lo mid hi. py_round (py_min (sort_key num_key ps)) 3 = Inr lo \<and>
           py_round (sort_key num_key ps ! (length ps div 2)) 3 = Inr mid \<and>
           py_round (py_max (sort_key num_key ps)) 3 = Inr hi"
    using gpu_entry_rounds [OF e pne] p l by simp
qed

lemma sorted_middle:
  assumes "ps \<noteq> []"
  shows "sort_key num_key ps ! (length ps div 2) \<in> set ps"
    and "num_key (sort_key num_key ps ! (length ps div 2 - 1))
           \<le> num_key (sort_key num_key ps ! (length ps div 2))"
proof -
  let ?xs = "sort_key num_key ps"
  have l: "length ?xs = length ps" by simp
  have i: "length ps div 2 < length ps" using assms by simp
  then have "?xs ! (length ps div 2) \<in> set ?xs" using l by (metis nth_mem)
  then show "?xs ! (length ps div 2) \<in> set ps" by simp
  have "sorted (map num_key ?xs)" by (rule sorted_sort_key)
  then have "map num_key ?xs ! (length ps div 2 - 1) \<le> map num_key ?xs ! (length ps div 2)"
    using i l by (intro sorted_nth_mono) simp_all
  then show "num_key (?xs ! (length ps div 2 - 1)) \<le> num_key (?xs ! (length ps div 2))"
    using i l by simp
qed

section \<open>No division by zero\<close>









section \<open>The projector, the clock and the run\<close>

text \<open>
  The fields of a projected record by the tables of the extraction policy; the clock
  readings that the records of one batch carry; and the file system that a run leaves
  behind once it has collected at least one record.
\<close>

lemma projected_flags:
  "k \<in> set false_when_absent \<Longrightarrow>
   projected now (JObj offer) k = Some (dict_get offer k (JBool False))"
  unfolding false_when_absent_def projected_def
  by (elim disjE | simp)+

lemma projected_plain:
  "(out, inp) \<in> set null_when_absent \<Longrightarrow>
   projected now (JObj offer) out = Some (dict_get offer inp JNull)"
  unfolding null_when_absent_def projected_def
  by (elim disjE | simp)+

lemma projected_fields:
  assumes "process_offer now (JObj offer) = Inr (JObj record)" and "k \<in> set (map fst record)"
  shows "k \<in> set [''timestamp'', ''date'', ''hour'', ''day_of_week'', ''is_weekend'',
                  ''reliability'', ''num_renting''] \<or>
         k \<in> set false_when_absent \<or> k \<in> set (map fst null_when_absent)"
proof -
  from assms(1) have "map fst record =
     [''timestamp'', ''date'', ''hour'', ''day_of_week'', ''is_weekend'', ''gpu_name'',
      ''num_gpus'', ''gpu_ram'', ''gpu_total_ram'', ''total_flops'', ''dlperf'',
      ''dlperf_per_dphtotal'', ''machine_id'', ''host_id'', ''reliability'', ''geolocation'',
      ''datacenter'', ''verified'', ''inet_down'', ''inet_up'', ''static_ip'',
      ''direct_port_count'', ''cpu_cores'', ''cpu_ghz'', ''cpu_name'', ''disk_space'',
      ''disk_bw'', ''dph_total'', ''dph_base'', ''storage_cost'', ''inet_up_cost'',
      ''inet_down_cost'', ''rented'', ''num_renting'', ''duration'', ''min_bid'',
      ''cuda_max_good'', ''compute_cap'', ''pci_gen'', ''pcie_bw'']"
    by auto
  with assms(2) show ?thesis
    unfolding null_when_absent_def false_when_absent_def
    by (elim disjE | simp)+
qed

lemma process_offers_timestamps:
  "map (\<lambda>r. field r ''timestamp'' JNull) (process_offers now n (map JObj offers)) =
   map (\<lambda>i. JStr (isoformat (now i))) [n ..< n + length offers]"
proof (induction offers arbitrary: n)
  case Nil
  then show ?case by simp
next
  case (Cons offer offers)
  have "[n ..< n + Suc (length offers)] = n # [Suc n ..< n + Suc (length offers)]"
    by (rule upt_conv_Cons) simp
  then have "[n ..< n + length (offer # offers)] = n # [Suc n ..< Suc n + length offers]"
    by simp
  with Cons [of "Suc n"] show ?case
    by (simp add: field_def dict_get_def del: upt_Suc)
qed

lemma main_saves:
  assumes "load_existing_data load fs = Inr (JList old)"
    and "fst (collect_data env post 0 now 1) = Inr new" and "new \<noteq> []"
  shows "fst (main dump load env post now fs) = save_data dump (JList (old @ new)) fs"
  using assms
  by (cases "collect_data env post 0 now 1")
    (simp add: main_def Let_def split: sum.splits)

section \<open>Evaluated examples\<close>

text \<open>
  The reporter on the batch with the prices 10, 20, 30, 40 and on the batch with the
  float prices 0.05, 0.1, 0.12345, 0.2, by evaluation.
\<close>

lemma four_stats: "get_summary_stats four_prices = Inr [(JStr ''RTX 4090'', four_entry)]"
  by code_simp

lemma float_stats: "get_summary_stats float_prices = Inr [(JStr ''RTX 4090'', float_entry)]"
  by code_simp

lemma float_cat_prices:
  "cat_prices (JStr ''RTX 4090'') (batch_of float_prices) =
     [JFloat (double_of (5 / 100)), JFloat (double_of (1 / 10)),
      JFloat (double_of (12345 / 100000)), JFloat (double_of (2 / 10))]"
  by code_simp

lemma float_median_new:
  "JFloat (double_of (123 / 1000)) \<notin>
     set [JFloat (double_of (5 / 100)), JFloat (double_of (1 / 10)),
          JFloat (double_of (12345 / 100000)), JFloat (double_of (2 / 10))]"
  by code_simp

section \<open>Properties of the projector\<close>

text \<open>
  Claim C3, as the code has it. For every offer that is a dict: the output
  \<^verbatim>\<open>reliability\<close> is the input \<^verbatim>\<open>reliability2\<close>, and the input \<^verbatim>\<open>reliability\<close> only when
  \<^verbatim>\<open>reliability2\<close> is missing (\<^verbatim>\<open>None\<close> when both are); each of the flags \<^verbatim>\<open>datacenter\<close>,
  \<^verbatim>\<open>verified\<close>, \<^verbatim>\<open>static_ip\<close> and \<^verbatim>\<open>rented\<close> is \<^verbatim>\<open>False\<close> when its key is missing; every
  field of the table \<^const>\<open>null_when_absent\<close> is \<^verbatim>\<open>None\<close> when its key is missing; and
  \<^verbatim>\<open>num_renting\<close> is the number 0 when its key is missing. A key that is present passes
  its value on unchanged. With the five fields derived from the clock these are all the
  fields of a record (\<open>projected_fields\<close> above).
\<close>

theorem field_extraction_policy:
  "projected now (JObj offer) ''reliability'' =
     Some (case map_of offer ''reliability2'' of
             Some v \<Rightarrow> v
           | None \<Rightarrow> (case map_of offer ''reliability'' of Some v \<Rightarrow> v | None \<Rightarrow> JNull)) \<and>
   (\<forall>k \<in> set false_when_absent.
      projected now (JObj offer) k =
        Some (case map_of offer k of Some v \<Rightarrow> v | None \<Rightarrow> JBool False)) \<and>
   (\<forall>(out, inp) \<in> set null_when_absent.
      projected now (JObj offer) out =
        Some (case map_of offer inp of Some v \<Rightarrow> v | None \<Rightarrow> JNull)) \<and>
   projected now (JObj offer) ''num_renting'' =
     Some (case map_of offer ''num_renting'' of Some v \<Rightarrow> v | None \<Rightarrow> JInt 0)"
proof -
  have 1: "projected now (JObj offer) ''reliability'' =
     Some (case map_of offer ''reliability2'' of
             Some v \<Rightarrow> v
           | None \<Rightarrow> (case map_of offer ''reliability'' of Some v \<Rightarrow> v | None \<Rightarrow> JNull))"
    by (simp add: projected_def dict_get_def)
  have 4: "projected now (JObj offer) ''num_renting'' =
     Some (case map_of offer ''num_renting'' of Some v \<Rightarrow> v | None \<Rightarrow> JInt 0)"
    by (simp add: projected_def dict_get_def)
  show ?thesis
    using 1 4 projected_flags [of _ now offer] projected_plain [of _ _ now offer]
    by (auto simp: dict_get_def)
qed

theorem field_extraction_policy_witness:
  "projected noon (JObj sparse_offer) ''reliability'' = Some (JFloat (15 / 16)) \<and>
   ''rented'' \<in> set false_when_absent \<and>
   projected noon (JObj sparse_offer) ''rented'' = Some (JBool False) \<and>
   (''dph_total'', ''dph_total'') \<in> set null_when_absent \<and>
   projected noon (JObj sparse_offer) ''dph_total'' = Some JNull \<and>
   projected noon (JObj sparse_offer) ''num_renting'' = Some (JInt 0)"
proof -
  have a: "''rented'' \<in> set false_when_absent"
    by (simp add: false_when_absent_def)
  have b: "(''dph_total'', ''dph_total'') \<in> set null_when_absent"
    by (simp add: null_when_absent_def)
  note t = field_extraction_policy [of noon sparse_offer]
  have 1: "projected noon (JObj sparse_offer) ''reliability'' = Some (JFloat (15 / 16))"
    using t by (simp add: sparse_offer_def)
  have 2: "projected noon (JObj sparse_offer) ''rented'' = Some (JBool False)"
    using t a by (auto simp: sparse_offer_def)
  have 3: "projected noon (JObj sparse_offer) ''dph_total'' = Some JNull"
    using t b by (auto simp: sparse_offer_def)
  have 4: "projected noon (JObj sparse_offer) ''num_renting'' = Some (JInt 0)"
    using t by (simp add: sparse_offer_def)
  from a b 1 2 3 4 show ?thesis by simp
qed

text \<open>
  The claim as stated counts \<^verbatim>\<open>num_renting\<close> among the fields that are \<^verbatim>\<open>None\<close> when
  missing; line 150 gives it the default 0.
\<close>

theorem num_renting_default_counterexample:
  "map_of sparse_offer ''num_renting'' = None \<and>
   projected noon (JObj sparse_offer) ''num_renting'' = Some (JInt 0) \<and>
   projected noon (JObj sparse_offer) ''num_renting'' \<noteq> Some JNull"
  by (simp add: sparse_offer_def projected_def dict_get_def)

text \<open>
  Claim C2 asks for one timestamp per batch. The code reads the clock inside
  \<^verbatim>\<open>process_offer\<close>, once per listing (\<open>process_offers_timestamps\<close> above): in the run
  over two listings of the same GPU under a clock that advances between the readings,
  the two records carry different timestamps, so the latest batch of that run, which
  line 213 selects by equal timestamp, holds one record and the summary counts one
  listing.
\<close>

theorem timestamp_per_listing:
  "map (\<lambda>r. field r ''timestamp'' JNull) one_run =
     [JStr ''2024-05-01T12:00:00.000001'', JStr ''2024-05-01T12:00:00.000002''] \<and>
   map gpu_of one_run = [JStr ''RTX 4090'', JStr ''RTX 4090''] \<and>
   length (batch_of one_run) = 1 \<and>
   reported (get_summary_stats one_run) (JStr ''RTX 4090'') ''total'' = Some (JInt 1)"
  by code_simp

section \<open>Properties of the fetcher\<close>

text \<open>
  Claim C7, as the code has it. Let the response be the answer to the request that
  \<^verbatim>\<open>fetch_vast_offers\<close> sends. If its status is not 200, the fetcher raises an
  \<^verbatim>\<open>Exception\<close> whose message holds the status code and the body, having sent that one
  request and no other; and a run with a credential set ends with that exception, one
  request sent and the file system as it was. If its status is 200 and its body is a
  JSON object with the listings as a list under \<^verbatim>\<open>offers\<close> (or without that key), the
  fetcher returns that list, again after one request.
\<close>

theorem fetch_status_handling:
  assumes "response = post sent VAST_API_URL (headers api_key) payload"
  shows "(status_code response \<noteq> 200 \<longrightarrow>
            fetch_vast_offers post sent api_key =
              (Inl (Exception (''API Error: '' @ str_int (status_code response) @ '' - ''
                      @ body_text response)), Suc sent)) \<and>
         (status_code response \<noteq> 200 \<and> sent = 0 \<and> api_key \<noteq> [] \<longrightarrow>
            main dump load (Some api_key) post now fs =
              (fs, Some (Exception (''API Error: '' @ str_int (status_code response)
                     @ '' - '' @ body_text response)), 1)) \<and>
         (status_code response = 200 \<longrightarrow>
            (\<forall>data offers.
               json_result response = Inr (JObj data) \<and>
               dict_get data ''offers'' (JList []) = JList offers \<longrightarrow>
               fetch_vast_offers post sent api_key = (Inr (JList offers), Suc sent)))"
  using assms
  by (auto simp: fetch_vast_offers_def main_def collect_data_def get_api_key_def Let_def)

text \<open>
  The witness is a server that answers the first request with 503 and would answer a
  second one with the listings: the fetcher and the run stop after the first.
\<close>

theorem fetch_status_handling_witness:
  "status_code (flaky_network 0 VAST_API_URL (headers ''key'') payload) \<noteq> 200 \<and>
   status_code (flaky_network 1 VAST_API_URL (headers ''key'') payload) = 200 \<and>
   fetch_vast_offers flaky_network 0 ''key'' =
     (Inl (Exception ''API Error: 503 - Service Unavailable''), 1) \<and>
   main id identity_load (Some ''key'') flaky_network ticking_clock no_dataset =
     (no_dataset, Some (Exception ''API Error: 503 - Service Unavailable''), 1) \<and>
   status_code (two_listings_network 0 VAST_API_URL (headers ''key'') payload) = 200 \<and>
   fetch_vast_offers two_listings_network 0 ''key'' = (Inr (JList two_listings), 1)"
proof -
  have s: "str_int 503 = ''503''"
    by code_simp
  have k: "''key'' \<noteq> []"
    by simp
  have 1: "status_code (flaky_network 0 VAST_API_URL (headers ''key'') payload) \<noteq> 200"
    by (simp add: flaky_network_def)
  have 2: "status_code (flaky_network 1 VAST_API_URL (headers ''key'') payload) = 200"
    by (simp add: flaky_network_def two_listings_network_def)
  have 3: "status_code (two_listings_network 0 VAST_API_URL (headers ''key'') payload) = 200"
    by (simp add: two_listings_network_def)
  from fetch_status_handling [OF refl, of flaky_network 0 "''key''" id identity_load
      ticking_clock no_dataset] 1 k s
  have a: "fetch_vast_offers flaky_network 0 ''key'' =
             (Inl (Exception ''API Error: 503 - Service Unavailable''), 1) \<and>
           main id identity_load (Some ''key'') flaky_network ticking_clock no_dataset =
             (no_dataset, Some (Exception ''API Error: 503 - Service Unavailable''), 1)"
    by (simp add: flaky_network_def)
  from fetch_status_handling [OF refl, of two_listings_network 0 "''key''" id identity_load
      ticking_clock no_dataset] 3
  have b: "fetch_vast_offers two_listings_network 0 ''key'' = (Inr (JList two_listings), 1)"
    by (simp add: two_listings_network_def dict_get_def)
  from 1 2 3 a b show ?thesis by simp
qed

text \<open>
  The claim as stated promises the listings for every success status. 201 is a success
  status of HTTP; a response with status 201 and the listings in its body makes the
  fetcher raise, since line 81 accepts the status 200 only.
\<close>

theorem success_status_counterexample:
  "status_code (created_network 0 VAST_API_URL (headers ''key'') payload) = 201 \<and>
   json_result (created_network 0 VAST_API_URL (headers ''key'') payload) =
     Inr (JObj [(''offers'', JList two_listings)]) \<and>
   fetch_vast_offers created_network 0 ''key'' =
     (Inl (Exception ''API Error: 201 - {...}''), 1)"
proof -
  have s: "str_int 201 = ''201''"
    by code_simp
  show ?thesis
    by (simp add: created_network_def fetch_vast_offers_def s)
qed

section \<open>Properties of the store\<close>

text \<open>
  Saving and loading compose the codec and nothing else: whatever the file system held,
  loading after a save decodes what the encoder wrote for the saved records.
\<close>

lemma load_after_save:
  "load_existing_data load (save_data dump records fs) = load (dump records)"
  by (simp add: load_existing_data_def save_data_def)

text \<open>
  Claim C6. When the dataset file does not exist, \<^verbatim>\<open>load_existing_data\<close> returns the
  empty list and raises nothing, whatever the decoder and the rest of the file system
  are.
\<close>

theorem load_missing_file:
  "data_file fs = None \<Longrightarrow> load_existing_data load fs = Inr (JList [])"
  by (simp add: load_existing_data_def)

theorem load_missing_file_witness:
  "data_file no_dataset = None \<and> load_existing_data identity_load no_dataset = Inr (JList [])"
proof -
  have h: "data_file no_dataset = None"
    by (simp add: no_dataset_def)
  from h load_missing_file [OF h, of identity_load] show ?thesis
    by simp
qed

text \<open>
  Claim C8. A run that finds \<open>n\<close> records in the dataset and collects \<open>k\<close> records leaves
  a dataset of \<open>n + k\<close> records whose first \<open>n\<close> are the prior records, unchanged and in
  order, provided the codec reads the new dataset back as written. With 100 stored
  records and a batch of 3 the dataset has 103.
\<close>

theorem append_preserves_history:
  assumes "load_existing_data load fs = Inr (JList old)"
    and "fst (collect_data env post 0 now 1) = Inr new"
    and "load (dump (JList (old @ new))) = Inr (JList (old @ new))"
  shows "load_existing_data load (fst (main dump load env post now fs))
           = Inr (JList (old @ new)) \<and>
         length (old @ new) = length old + length new \<and>
         take (length old) (old @ new) = old"
proof (cases "new = []")
  case True
  with assms(1,2) show ?thesis
    by (cases "collect_data env post 0 now 1") (simp add: main_def)
next
  case False
  from main_saves [OF assms(1,2) False] assms(3) show ?thesis
    by (simp add: load_existing_data_def save_data_def)
qed

theorem append_preserves_history_witness:
  "load_existing_data identity_load hundred_stored = Inr (JList hundred_records) \<and>
   fst (collect_data (Some ''key'') three_listings_network 0 ticking_clock 1)
     = Inr three_records \<and>
   length hundred_records = 100 \<and> length three_records = 3 \<and>
   load_existing_data identity_load
     (fst (main id identity_load (Some ''key'') three_listings_network ticking_clock
             hundred_stored))
     = Inr (JList (hundred_records @ three_records)) \<and>
   length (hundred_records @ three_records) = 103 \<and>
   take 100 (hundred_records @ three_records) = hundred_records"
proof -
  have 1: "load_existing_data identity_load hundred_stored = Inr (JList hundred_records)"
    by (simp add: load_existing_data_def hundred_stored_def identity_load_def)
  have 2: "fst (collect_data (Some ''key'') three_listings_network 0 ticking_clock 1)
             = Inr three_records"
    by code_simp
  have 3: "identity_load (id (JList (hundred_records @ three_records)))
             = Inr (JList (hundred_records @ three_records))"
    by (simp add: identity_load_def)
  have 4: "length hundred_records = 100"
    by (simp add: hundred_records_def)
  have 5: "length three_records = 3"
    by code_simp
  from append_preserves_history [of identity_load hundred_stored hundred_records
      "Some ''key''" three_listings_network ticking_clock three_records id, OF 1 2 3]
    1 2 4 5
  show ?thesis by simp
qed

section \<open>Properties of the reporter\<close>

text \<open>
  Claim C10. On the empty dataset \<^verbatim>\<open>get_summary_stats\<close> returns the empty mapping: the
  guard of line 208 returns before \<^verbatim>\<open>records[-1]\<close> is evaluated, so nothing can raise.
\<close>

theorem get_summary_stats_empty:
  "get_summary_stats [] = Inr []"
  by (simp add: get_summary_stats_def)

text \<open>
  Claim C1, as the code has it. For every GPU that the reporter lists and that has at
  least one price, the reported median is \<^verbatim>\<open>round(m, 3)\<close> where \<open>m\<close> is the element at index
  \<open>n div 2\<close> of the ascending-sorted prices. That element is one of the prices, never
  an average, and it is at least the element just before it: for an even number of
  prices it is the upper of the two middle elements. For the prices 10, 20, 30, 40 the
  reported median is 30; for the float prices 0.05, 0.1, 0.12345, 0.2 it is 0.123.
\<close>

theorem median_is_upper_middle:
  assumes "get_summary_stats records = Inr stats" and "(g, entry) \<in> set stats"
    and "ps = cat_prices g (batch_of records)" and "ps \<noteq> []"
  shows "py_getitem entry ''price_median''
           = py_round (sort_key num_key ps ! (length ps div 2)) 3 \<and>
         (\<exists>m. py_getitem entry ''price_median'' = Inr m) \<and>
         sort_key num_key ps ! (length ps div 2) \<in> set ps \<and>
         num_key (sort_key num_key ps ! (length ps div 2 - 1))
           \<le> num_key (sort_key num_key ps ! (length ps div 2))"
  using median_general(3,5) [OF assms] sorted_middle [OF assms(4)] by auto

theorem median_is_upper_middle_witness:
  "get_summary_stats four_prices = Inr [(JStr ''RTX 4090'', four_entry)] \<and>
   cat_prices (JStr ''RTX 4090'') (batch_of four_prices) = [JInt 10, JInt 20, JInt 30, JInt 40] \<and>
   py_getitem four_entry ''price_median'' = Inr (JInt 30) \<and>
   get_summary_stats float_prices = Inr [(JStr ''RTX 4090'', float_entry)] \<and>
   cat_prices (JStr ''RTX 4090'') (batch_of float_prices) =
     [JFloat (double_of (5 / 100)), JFloat (double_of (1 / 10)),
      JFloat (double_of (12345 / 100000)), JFloat (double_of (2 / 10))] \<and>
   py_getitem float_entry ''price_median'' = py_round (JFloat (double_of (12345 / 100000))) 3 \<and>
   py_getitem float_entry ''price_median'' = Inr (JFloat (double_of (123 / 1000)))"
proof -
  have 1: "get_summary_stats four_prices = Inr [(JStr ''RTX 4090'', four_entry)]"
    by (rule four_stats)
  have 2: "(JStr ''RTX 4090'', four_entry) \<in> set [(JStr ''RTX 4090'', four_entry)]"
    by simp
  have 3: "cat_prices (JStr ''RTX 4090'') (batch_of four_prices)
             = [JInt 10, JInt 20, JInt 30, JInt 40]"
    by code_simp
  have 4: "[JInt 10, JInt 20, JInt 30, JInt 40] \<noteq> []"
    by simp
  have 5: "py_round (sort_key num_key [JInt 10, JInt 20, JInt 30, JInt 40] !
             (length [JInt 10, JInt 20, JInt 30, JInt 40] div 2)) 3 = Inr (JInt 30)"
    by code_simp
  define fs where "fs = [JFloat (double_of (5 / 100)), JFloat (double_of (1 / 10)),
      JFloat (double_of (12345 / 100000)), JFloat (double_of (2 / 10))]"
  have 6: "get_summary_stats float_prices = Inr [(JStr ''RTX 4090'', float_entry)]"
    by (rule float_stats)
  have 7: "(JStr ''RTX 4090'', float_entry) \<in> set [(JStr ''RTX 4090'', float_entry)]"
    by simp
  have 8: "cat_prices (JStr ''RTX 4090'') (batch_of float_prices) = fs"
    unfolding fs_def by (rule float_cat_prices)
  have 9: "fs \<noteq> []"
    by (simp add: fs_def)
  have 10: "sort_key num_key fs ! (length fs div 2) = JFloat (double_of (12345 / 100000))"
    unfolding fs_def by code_simp
  have 11: "py_getitem float_entry ''price_median'' = Inr (JFloat (double_of (123 / 1000)))"
    by (simp add: float_entry_def)
  from median_is_upper_middle [OF 1 2 3 [symmetric] 4] 5
  have a: "py_getitem four_entry ''price_median'' = Inr (JInt 30)"
    by simp
  from median_is_upper_middle [OF 6 7 8 [symmetric] 9] 10
  have b: "py_getitem float_entry ''price_median''
             = py_round (JFloat (double_of (12345 / 100000))) 3"
    by simp
  from 1 3 a 6 8 b 11 show ?thesis
    by (simp add: fs_def)
qed

text \<open>
  The claim as stated asks for 20 on the prices 10, 20, 30, 40, calling index
  \<open>n div 2\<close> the lower median; the reporter returns the element at index 2, which is 30.
  It also calls the reported median an element of the list; on the float prices 0.05,
  0.1, 0.12345, 0.2 the reporter returns 0.123, which is none of the prices.
\<close>

theorem median_of_four_counterexample:
  "reported (get_summary_stats four_prices) (JStr ''RTX 4090'') ''price_median'' = Some (JInt 30)
   \<and> reported (get_summary_stats four_prices) (JStr ''RTX 4090'') ''price_median''
       \<noteq> Some (JInt 20)
   \<and> reported (get_summary_stats float_prices) (JStr ''RTX 4090'') ''price_median''
       = Some (JFloat (double_of (123 / 1000)))
   \<and> JFloat (double_of (123 / 1000))
       \<notin> set (cat_prices (JStr ''RTX 4090'') (batch_of float_prices))"
proof -
  have "reported (Inr [(JStr ''RTX 4090'', four_entry)]) (JStr ''RTX 4090'') ''price_median''
          = Some (JInt 30)"
    by (simp add: reported_def four_entry_def)
  moreover have
    "reported (Inr [(JStr ''RTX 4090'', float_entry)]) (JStr ''RTX 4090'') ''price_median''
       = Some (JFloat (double_of (123 / 1000)))"
    by (simp add: reported_def float_entry_def)
  ultimately show ?thesis
    using float_median_new by (simp only: four_stats float_stats float_cat_prices) simp
qed

text \<open>
  Claim C4, as the code has it. Every record of the latest batch finds its GPU name in
  the result, and for every GPU that the reporter lists, minimum, median and maximum
  are computed over exactly the \<^verbatim>\<open>dph_total\<close> values of the records of the latest batch
  with that GPU name that are truthy: a price that is \<^verbatim>\<open>None\<close> or zero is left out. Without such a price the three fields are \<^verbatim>\<open>None\<close>; otherwise all prices are
  numbers, the minimum and the maximum are a least and a greatest of them and the median
  is the element at index \<open>n div 2\<close> of the sorted prices, each rounded to three decimals.
\<close>

theorem prices_over_truthy_records:
  assumes "get_summary_stats records = Inr stats" and "(g, entry) \<in> set stats"
    and "ps = cat_prices g (batch_of records)"
  shows "(\<forall>r \<in> set (batch_of records). pd_get stats (gpu_of r) \<noteq> None) \<and>
         set ps = {p. \<exists>r \<in> set (batch_of records). py_eq (gpu_of r) g \<and>
                     p = field r ''dph_total'' JNull \<and> truthy p} \<and>
         (ps = [] \<longrightarrow>
            py_getitem entry ''price_min'' = Inr JNull \<and>
            py_getitem entry ''price_median'' = Inr JNull \<and>
            py_getitem entry ''price_max'' = Inr JNull) \<and>
         (ps \<noteq> [] \<longrightarrow>
            list_all is_num ps \<and>
            (\<exists>lo \<in> set ps. (\<forall>p \<in> set ps. num_key lo \<le> num_key p) \<and>
               py_getitem entry ''price_min'' = py_round lo 3) \<and>
            py_getitem entry ''price_median''
              = py_round (sort_key num_key ps ! (length ps div 2)) 3 \<and>
            (\<exists>hi \<in> set ps. (\<forall>p \<in> set ps. num_key p \<le> num_key hi) \<and>
               py_getitem entry ''price_max'' = py_round hi 3))"
proof -
  have a: "set ps = {p. \<exists>r \<in> set (batch_of records). py_eq (gpu_of r) g \<and>
                     p = field r ''dph_total'' JNull \<and> truthy p}"
    using assms(3) by (auto simp: cat_prices_def category_def)
  have b: "py_getitem entry ''price_min'' = Inr JNull \<and>
           py_getitem entry ''price_median'' = Inr JNull \<and>
           py_getitem entry ''price_max'' = Inr JNull" if e: "ps = []"
  proof -
    from get_summary_stats_entries(2) [OF assms(1,2)] assms(3) e obtain prices n k where
      s: "py_sorted [] = Inr prices" and en: "gpu_entry n k prices = Inr entry"
      by auto
    from s have "prices = []" by (simp add: py_sorted_def)
    with gpu_entry_fields(2,3,4) [OF en] show ?thesis by simp
  qed
  have c: "list_all is_num ps \<and>
            (\<exists>lo \<in> set ps. (\<forall>p \<in> set ps. num_key lo \<le> num_key p) \<and>
               py_getitem entry ''price_min'' = py_round lo 3) \<and>
            py_getitem entry ''price_median''
              = py_round (sort_key num_key ps ! (length ps div 2)) 3 \<and>
            (\<exists>hi \<in> set ps. (\<forall>p \<in> set ps. num_key p \<le> num_key hi) \<and>
               py_getitem entry ''price_max'' = py_round hi 3)" if ne: "ps \<noteq> []"
  proof -
    note g = median_general [OF assms ne]
    let ?xs = "sort_key num_key ps"
    have xs: "?xs \<noteq> []" "set ?xs = set ps"
      using ne by (metis length_sort length_0_conv, simp)
    have lo: "py_min ?xs \<in> set ps" "\<forall>p \<in> set ps. num_key (py_min ?xs) \<le> num_key p"
      using py_min_mem [OF xs(1)] py_min_le [of _ ?xs] xs(2) by auto
    have hi: "py_max ?xs \<in> set ps" "\<forall>p \<in> set ps. num_key p \<le> num_key (py_max ?xs)"
      using py_max_mem [OF xs(1)] py_max_ge [of _ ?xs] xs(2) by auto
    from g(1,2,3,4) lo hi show ?thesis by blast
  qed
  have d: "\<forall>r \<in> set (batch_of records). pd_get stats (gpu_of r) \<noteq> None"
    using get_summary_stats_covers [OF assms(1)] by blast
  from a b c d show ?thesis by blast
qed

theorem prices_over_truthy_records_witness:
  "get_summary_stats zero_and_five = Inr [(JStr ''RTX 4090'', five_entry)] \<and>
   (JStr ''RTX 4090'', five_entry) \<in> set [(JStr ''RTX 4090'', five_entry)] \<and>
   cat_prices (JStr ''RTX 4090'') (batch_of zero_and_five) = [JInt 5] \<and>
   py_getitem five_entry ''price_min'' = Inr (JInt 5) \<and>
   py_getitem five_entry ''price_median'' = Inr (JInt 5) \<and>
   py_getitem five_entry ''price_max'' = Inr (JInt 5)"
proof -
  have 1: "get_summary_stats zero_and_five = Inr [(JStr ''RTX 4090'', five_entry)]"
    by code_simp
  have 2: "(JStr ''RTX 4090'', five_entry) \<in> set [(JStr ''RTX 4090'', five_entry)]"
    by simp
  have 3: "cat_prices (JStr ''RTX 4090'') (batch_of zero_and_five) = [JInt 5]"
    by code_simp
  from prices_over_truthy_records [OF 1 2 3 [symmetric]] 1 2 3 show ?thesis
    by (simp add: five_entry_def)
qed

text \<open>
  The claim as stated includes a record whose price is 0. With one listing at price 0
  and one at price 5 under the same GPU name, the reported minimum is 5.
\<close>

theorem zero_price_counterexample:
  "zero_and_five ! 0 \<in> set (batch_of zero_and_five) \<and>
   gpu_of (zero_and_five ! 0) = JStr ''RTX 4090'' \<and>
   field (zero_and_five ! 0) ''dph_total'' JNull = JInt 0 \<and>
   JInt 0 \<noteq> JNull \<and>
   reported (get_summary_stats zero_and_five) (JStr ''RTX 4090'') ''price_min'' = Some (JInt 5)"
  by code_simp



end
